theory Spec2Isabelle
  imports Complex_Main
begin

section \<open>The yearly CSV merger \<^verbatim>\<open>database_creator/combine_csv.py\<close>\<close>

text \<open>
  The script scans a fixed range of years, reads every \<^verbatim>\<open><year>.csv\<close> that exists,
  forces its \<^verbatim>\<open>year\<close> column, concatenates the frames and writes the result into the
  table \<^verbatim>\<open>all_cars\<close> of an SQLite file.  Its effects are the calls it makes to the
  operating system, to pandas and to sqlite3.  The model passes an explicit world
  (the CSV directory, the database files, and the sequence of external calls made so
  far) through these calls; an exception is a value of the type \<open>error\<close>.
\<close>

subsection \<open>Data\<close>

type_synonym path = string

text \<open>
  A value in a pandas cell: an integer, a float (given by its value), a string, or
  \<open>NaN\<close>, the missing value pandas fills in.  Booleans and dates are not modelled.
\<close>

datatype cell = IntCell int | FloatCell rat | TextCell string | NaN

text \<open>
  A row maps column labels to cells; a frame is its ordered column labels and its rows
  in positional order.  The row index of pandas is the position in the list.
\<close>

type_synonym row = "string \<rightharpoonup> cell"

record dataframe =
  columns :: "string list"
  rows :: "row list"

text \<open>
  A file of the CSV directory, seen through \<^verbatim>\<open>pd.read_csv\<close>: either the parser
  raises on it, or it parses into a frame.
\<close>

datatype csv_file = Malformed | Csv dataframe

text \<open>An SQLite database: its tables by name.\<close>

type_synonym database = "string \<rightharpoonup> dataframe"

datatype error =
    FileNotFoundError string
  | ParserError
  | ValueError
  | OperationalError
  | OverflowError

text \<open>One event for each call that reaches outside the interpreter.\<close>

datatype event =
    Exists path
  | ReadCsv path
  | Print string
  | Connect path
  | Execute string
  | ToSql string
  | Commit
  | Close

record world =
  files :: "path \<rightharpoonup> csv_file"
  dbs :: "path \<rightharpoonup> database"
  trace :: "event list"

record connection =
  db_path :: path

subsection \<open>Python and library operations\<close>

definition log :: "event \<Rightarrow> world \<Rightarrow> world" where
  "log e w = w\<lparr>trace := trace w @ [e]\<rparr>"

text \<open>\<^verbatim>\<open>range(a, b)\<close>: the integers from \<open>a\<close> up to, excluding, \<open>b\<close>.\<close>

definition range_py :: "int \<Rightarrow> int \<Rightarrow> int list" where
  "range_py a b = [a..b - 1]"

definition digit_char :: "nat \<Rightarrow> char" where
  "digit_char d = ''0123456789'' ! d"

function str_nat :: "nat \<Rightarrow> string" where
  "str_nat n = (if n < 10 then [digit_char n] else str_nat (n div 10) @ [digit_char (n mod 10)])"
  by pat_completeness auto
termination
  by (relation "measure (\<lambda>n. n)") auto

declare str_nat.simps [simp del]

text \<open>\<^verbatim>\<open>f'{year}'\<close> for an integer: its decimal digits, with a sign when negative.\<close>

definition str :: "int \<Rightarrow> string" where
  "str i = (if i < 0 then CHR ''-'' # str_nat (nat (- i)) else str_nat (nat i))"

text \<open>\<^verbatim>\<open>os.path.join\<close> of two components on POSIX.\<close>

definition os_path_join :: "path \<Rightarrow> path \<Rightarrow> path" where
  "os_path_join a b =
     (if b \<noteq> [] \<and> hd b = CHR ''/'' then b
      else if a = [] \<or> last a = CHR ''/'' then a @ b
      else a @ ''/'' @ b)"

definition os_path_exists :: "world \<Rightarrow> path \<Rightarrow> bool \<times> world" where
  "os_path_exists w p = (files w p \<noteq> None, log (Exists p) w)"

definition pd_read_csv :: "world \<Rightarrow> path \<Rightarrow> (error + dataframe) \<times> world" where
  "pd_read_csv w p =
     (case files w p of
        None \<Rightarrow> Inl (FileNotFoundError p)
      | Some Malformed \<Rightarrow> Inl ParserError
      | Some (Csv df) \<Rightarrow> Inr df,
      log (ReadCsv p) w)"

text \<open>
  \<^verbatim>\<open>df[c] = v\<close> with a scalar: an existing column keeps its place and has every
  value replaced; a new column is added last.
\<close>

definition setitem :: "dataframe \<Rightarrow> string \<Rightarrow> cell \<Rightarrow> dataframe" where
  "setitem df c v =
     \<lparr>columns = (if c \<in> set (columns df) then columns df else columns df @ [c]),
      rows = map (\<lambda>r. r(c \<mapsto> v)) (rows df)\<rparr>"

text \<open>
  The labels of several frames, each once, in order of first appearance
  (\<open>remdups\<close> keeps the last occurrence of an element, hence the reversals).
\<close>

definition union_columns :: "string list list \<Rightarrow> string list" where
  "union_columns css = rev (remdups (rev (concat css)))"

text \<open>The cell of a row under a label; \<open>NaN\<close> where the row has none.\<close>

definition cell_at :: "row \<Rightarrow> string \<Rightarrow> cell" where
  "cell_at r c = (case r c of None \<Rightarrow> NaN | Some v \<Rightarrow> v)"

text \<open>A row laid out on the labels \<open>cols\<close>: a label the row lacks holds \<open>NaN\<close>.\<close>

definition reindex :: "string list \<Rightarrow> row \<Rightarrow> row" where
  "reindex cols r = (\<lambda>c. if c \<in> set cols then Some (cell_at r c) else None)"

text \<open>
  The 64-bit float nearest to an integer, ties to even: below \<open>2 ^ 53\<close> the integer
  itself, above it the integer rounded to 53 significant bits.
\<close>

function shift53 :: "nat \<Rightarrow> nat" where
  "shift53 n = (if n < 2 ^ 53 then 0 else Suc (shift53 (n div 2)))"
  by pat_completeness auto
termination
  by (relation "measure (\<lambda>n. n)") auto

declare shift53.simps [simp del]

definition round53 :: "nat \<Rightarrow> nat" where
  "round53 n =
     (let k = shift53 n; q = n div 2 ^ k; r = n mod 2 ^ k
      in (if 2 ^ k < 2 * r \<or> (2 * r = 2 ^ k \<and> odd q) then q + 1 else q) * 2 ^ k)"

definition float_of_int :: "int \<Rightarrow> rat" where
  "float_of_int i =
     (if i < 0 then - of_nat (round53 (nat (- i))) else of_nat (round53 (nat i)))"

fun to_float :: "cell \<Rightarrow> cell" where
  "to_float (IntCell i) = FloatCell (float_of_int i)"
| "to_float (FloatCell x) = FloatCell x"
| "to_float (TextCell s) = TextCell s"
| "to_float NaN = NaN"

fun is_text :: "cell \<Rightarrow> bool" where
  "is_text (TextCell s) = True"
| "is_text (IntCell i) = False"
| "is_text (FloatCell x) = False"
| "is_text NaN = False"

fun is_float :: "cell \<Rightarrow> bool" where
  "is_float (FloatCell x) = True"
| "is_float NaN = True"
| "is_float (IntCell i) = False"
| "is_float (TextCell s) = False"

text \<open>
  The type pandas gives a column of the concatenation.  The cells under a label are
  those of the frames that have the label.  The column is a float column when none of
  them is a string and either some frame lacks the label, so that \<open>NaN\<close> is filled in,
  or one of them is a float or \<open>NaN\<close>; then its integers become floats.  With a string
  the column holds objects, and a column of integers that every frame has stays one.
\<close>

definition col_cells :: "dataframe list \<Rightarrow> string \<Rightarrow> cell list" where
  "col_cells objs c =
     concat (map (\<lambda>df. if c \<in> set (columns df) then map (\<lambda>r. cell_at r c) (rows df) else [])
       objs)"

definition floated :: "dataframe list \<Rightarrow> string \<Rightarrow> bool" where
  "floated objs c =
     (\<not> list_ex is_text (col_cells objs c) \<and>
      (list_ex (\<lambda>df. c \<notin> set (columns df)) objs \<or> list_ex is_float (col_cells objs c)))"

definition upcast :: "(string \<Rightarrow> bool) \<Rightarrow> row \<Rightarrow> row" where
  "upcast f r = (\<lambda>c. case r c of None \<Rightarrow> None | Some v \<Rightarrow> Some (if f c then to_float v else v))"

text \<open>
  \<^verbatim>\<open>pd.concat(objs, ignore_index=True)\<close>: the outer join of the columns, the rows
  of the frames one after the other, each column with its common type.  On an empty list
  pandas raises \<^verbatim>\<open>ValueError\<close>.
\<close>

definition pd_concat :: "dataframe list \<Rightarrow> error + dataframe" where
  "pd_concat objs =
     (if objs = [] then Inl ValueError
      else let cols = union_columns (map columns objs)
           in Inr \<lparr>columns = cols,
                   rows = concat (map (\<lambda>df. map (\<lambda>r. upcast (floated objs) (reindex cols r))
                                           (rows df)) objs)\<rparr>)"

text \<open>
  \<^verbatim>\<open>sqlite3.connect\<close> opens the database at the path and creates an empty one if
  the file is absent.  In the default mode of Python's \<^verbatim>\<open>sqlite3\<close> a statement that
  creates or drops a table takes effect in the file at once, and pandas commits the rows
  it inserts, so every statement below writes to the file; at \<^verbatim>\<open>conn.commit()\<close>
  nothing is pending.  Failures of the file system (permissions, disk space) are outside
  the model.
\<close>

definition the_db :: "world \<Rightarrow> path \<Rightarrow> database" where
  "the_db w p = (case dbs w p of None \<Rightarrow> Map.empty | Some d \<Rightarrow> d)"

definition sqlite3_connect :: "world \<Rightarrow> path \<Rightarrow> connection \<times> world" where
  "sqlite3_connect w p =
     (\<lparr>db_path = p\<rparr>, log (Connect p) (w\<lparr>dbs := (dbs w)(p \<mapsto> the_db w p)\<rparr>))"

text \<open>
  \<^verbatim>\<open>CREATE TABLE IF NOT EXISTS name (cols)\<close>.  The declared column types are not
  modelled: a table is its column labels and its rows.
\<close>

definition create_table_if_not_exists ::
  "world \<Rightarrow> connection \<Rightarrow> string \<Rightarrow> string list \<Rightarrow> world" where
  "create_table_if_not_exists w conn name cols =
     log (Execute (''CREATE TABLE IF NOT EXISTS '' @ name))
       (case the_db w (db_path conn) name of
          None \<Rightarrow> w\<lparr>dbs := (dbs w)(db_path conn \<mapsto>
                    (the_db w (db_path conn))(name \<mapsto> \<lparr>columns = cols, rows = []\<rparr>))\<rparr>
        | Some t \<Rightarrow> w)"

text \<open>
  SQLite compares column names without regard to the case of the letters A to Z, and
  refuses a table with two columns of the same name.  It stores integers in 64 bits, and
  Python's \<^verbatim>\<open>sqlite3\<close> raises \<^verbatim>\<open>OverflowError\<close> on an integer outside that range.
\<close>

definition lower_ascii :: "char \<Rightarrow> char" where
  "lower_ascii c =
     (case map_of (zip ''ABCDEFGHIJKLMNOPQRSTUVWXYZ'' ''abcdefghijklmnopqrstuvwxyz'') c of
        None \<Rightarrow> c
      | Some l \<Rightarrow> l)"

definition lower_label :: "string \<Rightarrow> string" where
  "lower_label s = map lower_ascii s"

definition labels_clash :: "string list \<Rightarrow> bool" where
  "labels_clash cols = (\<not> distinct (map lower_label cols))"

fun fits_int64 :: "cell \<Rightarrow> bool" where
  "fits_int64 (IntCell i) = (- (2 ^ 63) \<le> i \<and> i < 2 ^ 63)"
| "fits_int64 (FloatCell x) = True"
| "fits_int64 (TextCell s) = True"
| "fits_int64 NaN = True"

definition overflows :: "dataframe \<Rightarrow> bool" where
  "overflows df =
     list_ex (\<lambda>r. list_ex (\<lambda>c. \<not> fits_int64 (cell_at r c)) (columns df)) (rows df)"

text \<open>
  \<^verbatim>\<open>df.to_sql(name, conn, if_exists='replace', index=False)\<close>: a table of that name
  is dropped; a new one is created from the frame's columns, which SQLite refuses when
  two labels clash; the rows are inserted in one transaction, which is rolled back when
  a cell overflows.  On success the table is the frame.
\<close>

definition to_sql_replace ::
  "world \<Rightarrow> dataframe \<Rightarrow> string \<Rightarrow> connection \<Rightarrow> (error + unit) \<times> world" where
  "to_sql_replace w df name conn =
     (let w1 = log (ToSql name) w;
          dropped = (the_db w1 (db_path conn))(name := None);
          created = dropped(name \<mapsto> \<lparr>columns = columns df, rows = []\<rparr>)
      in if labels_clash (columns df)
         then (Inl OperationalError, w1\<lparr>dbs := (dbs w1)(db_path conn \<mapsto> dropped)\<rparr>)
         else if overflows df
         then (Inl OverflowError, w1\<lparr>dbs := (dbs w1)(db_path conn \<mapsto> created)\<rparr>)
         else (Inr (), w1\<lparr>dbs := (dbs w1)(db_path conn \<mapsto> created(name \<mapsto> df))\<rparr>))"

definition commit :: "world \<Rightarrow> connection \<Rightarrow> world" where
  "commit w conn = log Commit w"

definition close :: "world \<Rightarrow> connection \<Rightarrow> world" where
  "close w conn = log Close w"

definition print :: "world \<Rightarrow> string \<Rightarrow> world" where
  "print w s = log (Print s) w"

subsection \<open>The script\<close>

definition csv_folder :: path where
  "csv_folder = ''./us_car_models_data_master''"

definition output_db :: path where
  "output_db = ''./cars.db''"

text \<open>
  Lines 13 to 21, the loop over the years: \<open>all_cars_data\<close> is the list the frames
  are appended to.  An exception of \<^verbatim>\<open>pd.read_csv\<close> ends the loop and the run.
\<close>

fun scan :: "world \<Rightarrow> int list \<Rightarrow> dataframe list \<Rightarrow> (error + dataframe list) \<times> world" where
  "scan w [] all_cars_data = (Inr all_cars_data, w)"
| "scan w (year # years) all_cars_data =
     (let file_path = os_path_join csv_folder (str year @ ''.csv'');
          (ex, w1) = os_path_exists w file_path
      in if ex then
           (case pd_read_csv w1 file_path of
              (Inl e, w2) \<Rightarrow> (Inl e, w2)
            | (Inr df, w2) \<Rightarrow>
                scan w2 years (all_cars_data @ [setitem df ''year'' (IntCell year)]))
         else
           scan (print w1 (''File '' @ str year @ ''.csv not found, skipping.'')) years
             all_cars_data)"

text \<open>
  Lines 30 to 50: the store is opened and written; an exception of \<^verbatim>\<open>to_sql\<close> ends
  the run before line 47.
\<close>

definition store :: "world \<Rightarrow> dataframe \<Rightarrow> (error + unit) \<times> world" where
  "store w all_cars =
     (let (conn, w1) = sqlite3_connect w output_db;
          w2 = create_table_if_not_exists w1 conn ''all_cars''
                 [''year'', ''make'', ''model'', ''body_styles'']
      in case to_sql_replace w2 all_cars ''all_cars'' conn of
           (Inl e, w3) \<Rightarrow> (Inl e, w3)
         | (Inr u, w3) \<Rightarrow>
             (Inr (),
              print (close (commit w3 conn) conn)
                (''All cars data merged and stored in '' @ output_db @ '' as 'all_cars'.'')))"

text \<open>The whole script, from a world to its outcome and the world it leaves.\<close>

definition main :: "world \<Rightarrow> (error + unit) \<times> world" where
  "main w =
     (case scan w (range_py 1992 2027) [] of
        (Inl e, w1) \<Rightarrow> (Inl e, w1)
      | (Inr all_cars_data, w1) \<Rightarrow>
          if all_cars_data \<noteq> [] then
            (case pd_concat all_cars_data of
               Inl e \<Rightarrow> (Inl e, w1)
             | Inr all_cars \<Rightarrow> store w1 all_cars)
          else (Inl (FileNotFoundError ''No CSV files found for the specified range.''), w1))"

subsection \<open>Notions used to state the properties\<close>

text \<open>The path the loop builds for a year (line 14) and the notice it prints (line 21).\<close>

definition csv_path :: "int \<Rightarrow> path" where
  "csv_path year = os_path_join csv_folder (str year @ ''.csv'')"

definition skip_notice :: "int \<Rightarrow> string" where
  "skip_notice year = ''File '' @ str year @ ''.csv not found, skipping.''"

text \<open>
  The files of the given years that parse, each with its year, in the order of the years;
  \<open>tagged\<close> is such a frame after line 18.
\<close>

definition found :: "(path \<rightharpoonup> csv_file) \<Rightarrow> int list \<Rightarrow> (int \<times> dataframe) list" where
  "found fs years =
     concat (map (\<lambda>y. case fs (csv_path y) of Some (Csv df) \<Rightarrow> [(y, df)] | _ \<Rightarrow> []) years)"

definition tagged :: "int \<times> dataframe \<Rightarrow> dataframe" where
  "tagged yd = setitem (snd yd) ''year'' (IntCell (fst yd))"

text \<open>The calls of the loop when every year is reached: one test per year, then a read or a notice.\<close>

definition scan_events :: "(path \<rightharpoonup> csv_file) \<Rightarrow> int list \<Rightarrow> event list" where
  "scan_events fs years =
     concat (map (\<lambda>y. if fs (csv_path y) = None
                       then [Exists (csv_path y), Print (skip_notice y)]
                       else [Exists (csv_path y), ReadCsv (csv_path y)]) years)"

text \<open>The years of the loop, line 13.\<close>

definition years :: "int list" where
  "years = range_py 1992 2027"

text \<open>The calls of lines 30 to 50, and the database they leave from the one they found.\<close>

definition store_events :: "event list" where
  "store_events =
     [Connect output_db, Execute ''CREATE TABLE IF NOT EXISTS all_cars'', ToSql ''all_cars'',
      Commit, Close,
      Print ''All cars data merged and stored in ./cars.db as 'all_cars'.'']"

definition written :: "database option \<Rightarrow> dataframe \<Rightarrow> database" where
  "written old df = (case old of None \<Rightarrow> Map.empty | Some d \<Rightarrow> d)(''all_cars'' \<mapsto> df)"

text \<open>The frame \<^verbatim>\<open>pd.concat\<close> returns on a list that is not empty.\<close>

definition combined :: "dataframe list \<Rightarrow> dataframe" where
  "combined objs =
     \<lparr>columns = union_columns (map columns objs),
      rows = concat (map (\<lambda>df. map (\<lambda>r. upcast (floated objs)
                                      (reindex (union_columns (map columns objs)) r))
                             (rows df)) objs)\<rparr>"

text \<open>The frames line 19 has collected when the loop ends, and the frame line 25 makes of them.\<close>

definition collected :: "(path \<rightharpoonup> csv_file) \<Rightarrow> dataframe list" where
  "collected fs = map tagged (found fs years)"

definition all_cars_frame :: "(path \<rightharpoonup> csv_file) \<Rightarrow> dataframe" where
  "all_cars_frame fs = combined (collected fs)"

text \<open>The exception \<^verbatim>\<open>to_sql\<close> raises on a frame, if any.\<close>

definition sql_error :: "dataframe \<Rightarrow> error option" where
  "sql_error df =
     (if labels_clash (columns df) then Some OperationalError
      else if overflows df then Some OverflowError
      else None)"

text \<open>The calls of lines 30 to 44 when \<^verbatim>\<open>to_sql\<close> raises, and the database they leave.\<close>

definition refused_events :: "event list" where
  "refused_events =
     [Connect output_db, Execute ''CREATE TABLE IF NOT EXISTS all_cars'', ToSql ''all_cars'']"

definition refused :: "database option \<Rightarrow> dataframe \<Rightarrow> database" where
  "refused old df =
     (if labels_clash (columns df)
      then (case old of None \<Rightarrow> Map.empty | Some d \<Rightarrow> d)(''all_cars'' := None)
      else (case old of None \<Rightarrow> Map.empty | Some d \<Rightarrow> d)
             (''all_cars'' \<mapsto> \<lparr>columns = columns df, rows = []\<rparr>))"

text \<open>The table \<^verbatim>\<open>all_cars\<close> of the output database, if the file and the table exist.\<close>

definition all_cars_table :: "world \<Rightarrow> dataframe option" where
  "all_cars_table w = (case dbs w output_db of None \<Rightarrow> None | Some d \<Rightarrow> d ''all_cars'')"

text \<open>
  A row of the file of year \<open>y\<close> as it is stored in a table with the labels \<open>cols\<close>,
  the columns for which \<open>f\<close> holds being float columns.
\<close>

definition persisted :: "(string \<Rightarrow> bool) \<Rightarrow> string list \<Rightarrow> int \<Rightarrow> row \<Rightarrow> row" where
  "persisted f cols y r = upcast f (reindex cols (r(''year'' \<mapsto> IntCell y)))"

definition block_with ::
  "(string \<Rightarrow> bool) \<Rightarrow> (path \<rightharpoonup> csv_file) \<Rightarrow> string list \<Rightarrow> int \<Rightarrow> row list" where
  "block_with f fs cols y =
     (case fs (csv_path y) of Some (Csv df) \<Rightarrow> map (persisted f cols y) (rows df) | _ \<Rightarrow> [])"

text \<open>
  The stored rows that come from the file of year \<open>y\<close>, in the order of the file: none
  if it is absent.  The float columns are those of the frames collected from the
  directory.
\<close>

definition block :: "(path \<rightharpoonup> csv_file) \<Rightarrow> string list \<Rightarrow> int \<Rightarrow> row list" where
  "block fs cols y = block_with (floated (collected fs)) fs cols y"

text \<open>
  The years the loop reaches: those before the first year whose file is malformed, and
  that year.
\<close>

definition reached :: "(path \<rightharpoonup> csv_file) \<Rightarrow> int list \<Rightarrow> int list" where
  "reached fs ys =
     takeWhile (\<lambda>y. fs (csv_path y) \<noteq> Some Malformed) ys @
     take 1 (dropWhile (\<lambda>y. fs (csv_path y) \<noteq> Some Malformed) ys)"

text \<open>The column labels of the file of year \<open>y\<close>: none if it is absent.\<close>

definition header :: "(path \<rightharpoonup> csv_file) \<Rightarrow> int \<Rightarrow> string set" where
  "header fs y = (case fs (csv_path y) of Some (Csv df) \<Rightarrow> set (columns df) | _ \<Rightarrow> {})"

text \<open>The number of data rows of the file of year \<open>y\<close>: none if it is absent.\<close>

definition nrows :: "(path \<rightharpoonup> csv_file) \<Rightarrow> int \<Rightarrow> nat" where
  "nrows fs y = (case fs (csv_path y) of Some (Csv df) \<Rightarrow> length (rows df) | _ \<Rightarrow> 0)"

text \<open>The calls that open, change or close the output store.\<close>

fun store_event :: "event \<Rightarrow> bool" where
  "store_event (Connect p) = True"
| "store_event (Execute q) = True"
| "store_event (ToSql n) = True"
| "store_event Commit = True"
| "store_event Close = True"
| "store_event (Exists p) = False"
| "store_event (ReadCsv p) = False"
| "store_event (Print s) = False"

text \<open>The paths tested for existence, the paths read, and the lines printed, in order.\<close>

definition probed :: "event list \<Rightarrow> path list" where
  "probed evs = concat (map (\<lambda>e. case e of Exists p \<Rightarrow> [p] | _ \<Rightarrow> []) evs)"

definition reads :: "event list \<Rightarrow> path list" where
  "reads evs = concat (map (\<lambda>e. case e of ReadCsv p \<Rightarrow> [p] | _ \<Rightarrow> []) evs)"

definition console :: "event list \<Rightarrow> string list" where
  "console evs = concat (map (\<lambda>e. case e of Print s \<Rightarrow> [s] | _ \<Rightarrow> []) evs)"

subsection \<open>Example directories\<close>

text \<open>A directory holding only \<^verbatim>\<open>2020.csv\<close>, one row, no \<^verbatim>\<open>year\<close> column; no database yet.\<close>

definition dfA :: dataframe where
  "dfA = \<lparr>columns = [''make'', ''model'', ''body_styles''],
          rows = [[''make'' \<mapsto> TextCell ''Toyota'', ''model'' \<mapsto> TextCell ''Corolla'',
                   ''body_styles'' \<mapsto> TextCell ''Sedan'']]\<rparr>"

definition wA :: world where
  "wA = \<lparr>files = [''./us_car_models_data_master/2020.csv'' \<mapsto> Csv dfA],
          dbs = Map.empty, trace = []\<rparr>"

text \<open>An empty directory beside a database that already holds a table \<^verbatim>\<open>all_cars\<close>.\<close>

definition old_table :: dataframe where
  "old_table = \<lparr>columns = [''year'', ''make''],
                rows = [[''year'' \<mapsto> IntCell 1990, ''make'' \<mapsto> TextCell ''Saab'']]\<rparr>"

definition wC :: world where
  "wC = \<lparr>files = Map.empty, dbs = [''./cars.db'' \<mapsto> [''all_cars'' \<mapsto> old_table]], trace = []\<rparr>"

text \<open>A directory whose \<^verbatim>\<open>2020.csv\<close> has a \<^verbatim>\<open>year\<close> column of its own, holding 1999.\<close>

definition dfD :: dataframe where
  "dfD = \<lparr>columns = [''year'', ''make'', ''model'', ''body_styles''],
          rows = [[''year'' \<mapsto> IntCell 1999, ''make'' \<mapsto> TextCell ''Toyota'',
                   ''model'' \<mapsto> TextCell ''Corolla'', ''body_styles'' \<mapsto> TextCell ''Sedan'']]\<rparr>"

definition wD :: world where
  "wD = \<lparr>files = [''./us_car_models_data_master/2020.csv'' \<mapsto> Csv dfD],
          dbs = Map.empty, trace = []\<rparr>"

text \<open>
  A directory holding \<^verbatim>\<open>1992.csv\<close> and \<^verbatim>\<open>2026.csv\<close>, one row each; only the first
  has a column \<^verbatim>\<open>doors\<close>, of integers.
\<close>

definition rB1 :: row where
  "rB1 = [''make'' \<mapsto> TextCell ''Ford'', ''model'' \<mapsto> TextCell ''Taurus'',
          ''body_styles'' \<mapsto> TextCell ''Sedan'', ''doors'' \<mapsto> IntCell 4]"

definition rB2 :: row where
  "rB2 = [''make'' \<mapsto> TextCell ''Rivian'', ''model'' \<mapsto> TextCell ''R2'',
          ''body_styles'' \<mapsto> TextCell ''SUV'']"

definition wB :: world where
  "wB = \<lparr>files = [''./us_car_models_data_master/1992.csv'' \<mapsto>
                     Csv \<lparr>columns = [''make'', ''model'', ''body_styles'', ''doors''],
                          rows = [rB1]\<rparr>,
                   ''./us_car_models_data_master/2026.csv'' \<mapsto>
                     Csv \<lparr>columns = [''make'', ''model'', ''body_styles''], rows = [rB2]\<rparr>],
          dbs = Map.empty, trace = []\<rparr>"

text \<open>The directory of \<open>wA\<close> beside a database that already holds a table \<^verbatim>\<open>all_cars\<close>.\<close>

definition wA' :: world where
  "wA' = \<lparr>files = [''./us_car_models_data_master/2020.csv'' \<mapsto> Csv dfA],
           dbs = [''./cars.db'' \<mapsto> [''all_cars'' \<mapsto> old_table]], trace = []\<rparr>"

text \<open>
  A directory whose \<^verbatim>\<open>2019.csv\<close> parses and whose \<^verbatim>\<open>2020.csv\<close> does not, beside a
  database that already holds a table \<^verbatim>\<open>all_cars\<close>.
\<close>

definition wM :: world where
  "wM = \<lparr>files = [''./us_car_models_data_master/2019.csv'' \<mapsto> Csv dfA,
                   ''./us_car_models_data_master/2020.csv'' \<mapsto> Malformed],
          dbs = [''./cars.db'' \<mapsto> [''all_cars'' \<mapsto> old_table]], trace = []\<rparr>"

text \<open>A directory whose only file, \<^verbatim>\<open>2020.csv\<close>, is a header row without data rows.\<close>

definition dfE :: dataframe where
  "dfE = \<lparr>columns = [''make'', ''model'', ''body_styles''], rows = []\<rparr>"

definition wE :: world where
  "wE = \<lparr>files = [''./us_car_models_data_master/2020.csv'' \<mapsto> Csv dfE],
          dbs = Map.empty, trace = []\<rparr>"

text \<open>A directory whose only file, \<^verbatim>\<open>2020.csv\<close>, has the columns \<^verbatim>\<open>make\<close> and \<^verbatim>\<open>trim\<close>.\<close>

definition dfX :: dataframe where
  "dfX = \<lparr>columns = [''make'', ''trim''],
          rows = [[''make'' \<mapsto> TextCell ''Toyota'', ''trim'' \<mapsto> TextCell ''LE'']]\<rparr>"

definition wX :: world where
  "wX = \<lparr>files = [''./us_car_models_data_master/2020.csv'' \<mapsto> Csv dfX],
          dbs = Map.empty, trace = []\<rparr>"



text \<open>
  Two directories with a file that is a header row without data rows: in the first it is
  the only file and is headed \<^verbatim>\<open>Year,make\<close>; in the second it is \<^verbatim>\<open>2019.csv\<close> and
  \<^verbatim>\<open>2020.csv\<close> is malformed.
\<close>

definition dfH :: dataframe where
  "dfH = \<lparr>columns = [''Year'', ''make''], rows = []\<rparr>"

definition wH1 :: world where
  "wH1 = \<lparr>files = [''./us_car_models_data_master/2020.csv'' \<mapsto> Csv dfH],
           dbs = Map.empty, trace = []\<rparr>"

definition wH2 :: world where
  "wH2 = \<lparr>files = [''./us_car_models_data_master/2019.csv'' \<mapsto> Csv dfE,
                    ''./us_car_models_data_master/2020.csv'' \<mapsto> Malformed],
           dbs = Map.empty, trace = []\<rparr>"

section \<open>Properties of the model\<close>

subsection \<open>The loop and the three outcomes of a run\<close>

lemma found_Nil [simp]: "found fs [] = []"
  by (simp add: found_def)

lemma found_append: "found fs (xs @ ys) = found fs xs @ found fs ys"
  by (simp add: found_def)

lemma scan_events_Nil [simp]: "scan_events fs [] = []"
  by (simp add: scan_events_def)

lemma scan_events_append: "scan_events fs (xs @ ys) = scan_events fs xs @ scan_events fs ys"
  by (simp add: scan_events_def)

lemma scan_absent:
  "files w (csv_path y) = None \<Longrightarrow>
   scan w (y # ys) acc = scan (print (log (Exists (csv_path y)) w) (skip_notice y)) ys acc"
  by (simp add: csv_path_def skip_notice_def os_path_exists_def Let_def)

lemma scan_parsed:
  "files w (csv_path y) = Some (Csv df) \<Longrightarrow>
   scan w (y # ys) acc =
     scan (log (ReadCsv (csv_path y)) (log (Exists (csv_path y)) w)) ys
       (acc @ [setitem df ''year'' (IntCell y)])"
  by (simp add: csv_path_def os_path_exists_def pd_read_csv_def log_def Let_def)

lemma scan_malformed:
  "files w (csv_path y) = Some Malformed \<Longrightarrow>
   scan w (y # ys) acc = (Inl ParserError, log (ReadCsv (csv_path y)) (log (Exists (csv_path y)) w))"
  by (simp add: csv_path_def os_path_exists_def pd_read_csv_def log_def Let_def)

lemma scan_ok:
  "\<forall>y\<in>set ys. files w (csv_path y) \<noteq> Some Malformed \<Longrightarrow>
   scan w ys acc =
     (Inr (acc @ map tagged (found (files w) ys)),
      w\<lparr>trace := trace w @ scan_events (files w) ys\<rparr>)"
proof (induction ys arbitrary: w acc)
  case Nil
  show ?case by simp
next
  case (Cons y ys)
  show ?case
  proof (cases "files w (csv_path y)")
    case None
    let ?w = "print (log (Exists (csv_path y)) w) (skip_notice y)"
    have fw: "files ?w = files w" by (simp add: print_def log_def)
    have "scan w (y # ys) acc = scan ?w ys acc"
      using None by (rule scan_absent)
    also have "\<dots> = (Inr (acc @ map tagged (found (files ?w) ys)),
                     ?w\<lparr>trace := trace ?w @ scan_events (files ?w) ys\<rparr>)"
      using Cons.prems by (intro Cons.IH) (simp add: fw)
    finally show ?thesis
      using None by (simp add: fw found_def scan_events_def print_def log_def)
  next
    case (Some f)
    with Cons.prems obtain df where df: "files w (csv_path y) = Some (Csv df)"
      by (cases f) auto
    let ?w = "log (ReadCsv (csv_path y)) (log (Exists (csv_path y)) w)"
    have fw: "files ?w = files w" by (simp add: log_def)
    have "scan w (y # ys) acc = scan ?w ys (acc @ [setitem df ''year'' (IntCell y)])"
      using df by (rule scan_parsed)
    also have "\<dots> = (Inr ((acc @ [setitem df ''year'' (IntCell y)]) @ map tagged (found (files ?w) ys)),
                     ?w\<lparr>trace := trace ?w @ scan_events (files ?w) ys\<rparr>)"
      using Cons.prems by (intro Cons.IH) (simp add: fw)
    finally show ?thesis
      using df by (simp add: fw found_def scan_events_def log_def tagged_def)
  qed
qed

lemma scan_append:
  "scan w (xs @ ys) acc =
     (case scan w xs acc of (Inl e, w1) \<Rightarrow> (Inl e, w1) | (Inr acc1, w1) \<Rightarrow> scan w1 ys acc1)"
proof (induction xs arbitrary: w acc)
  case Nil
  show ?case by simp
next
  case (Cons y xs)
  show ?case
  proof (cases "files w (csv_path y)")
    case None
    then show ?thesis by (simp only: append_Cons scan_absent Cons.IH)
  next
    case (Some f)
    show ?thesis
    proof (cases f)
      case Malformed
      with Some show ?thesis by (simp only: append_Cons scan_malformed) simp
    next
      case (Csv df)
      with Some show ?thesis by (simp only: append_Cons scan_parsed Cons.IH)
    qed
  qed
qed

lemma scan_bad:
  assumes ok: "\<forall>y\<in>set xs. files w (csv_path y) \<noteq> Some Malformed"
    and bad: "files w (csv_path y) = Some Malformed"
  shows "scan w (xs @ y # ys) acc =
     (Inl ParserError,
      w\<lparr>trace := trace w @ scan_events (files w) xs @ [Exists (csv_path y), ReadCsv (csv_path y)]\<rparr>)"
proof -
  let ?w = "w\<lparr>trace := trace w @ scan_events (files w) xs\<rparr>"
  have "files ?w (csv_path y) = Some Malformed" using bad by simp
  then have "scan ?w (y # ys) (acc @ map tagged (found (files w) xs)) =
      (Inl ParserError, log (ReadCsv (csv_path y)) (log (Exists (csv_path y)) ?w))"
    by (rule scan_malformed)
  then show ?thesis
    by (simp add: scan_append scan_ok [OF ok] log_def)
qed

lemma range_years: "range_py 1992 2027 = years"
  by (simp add: years_def)

lemma years_upto: "years = [1992..2026]"
  by (simp add: range_py_def years_def)

subsection \<open>The store and the outcomes of a run\<close>

lemma to_sql_replace_eq:
  "to_sql_replace w df name conn =
     (case sql_error df of
        None \<Rightarrow>
          (Inr (),
           w\<lparr>dbs := (dbs w)(db_path conn \<mapsto> (the_db w (db_path conn))(name \<mapsto> df)),
             trace := trace w @ [ToSql name]\<rparr>)
      | Some e \<Rightarrow>
          (Inl e,
           w\<lparr>dbs := (dbs w)(db_path conn \<mapsto>
                   (if labels_clash (columns df) then (the_db w (db_path conn))(name := None)
                    else (the_db w (db_path conn))(name \<mapsto> \<lparr>columns = columns df, rows = []\<rparr>))),
             trace := trace w @ [ToSql name]\<rparr>))"
  by (simp add: to_sql_replace_def sql_error_def log_def the_db_def Let_def)

lemma store_ok:
  "sql_error df = None \<Longrightarrow>
   store w df =
     (Inr (),
      w\<lparr>dbs := (dbs w)(output_db \<mapsto> written (dbs w output_db) df),
        trace := trace w @ store_events\<rparr>)"
  by (cases "dbs w output_db")
     (auto simp add: store_def to_sql_replace_eq sqlite3_connect_def
        create_table_if_not_exists_def commit_def close_def print_def log_def the_db_def
        store_events_def written_def output_db_def split: option.splits)

lemma store_refused:
  "sql_error df = Some e \<Longrightarrow>
   store w df =
     (Inl e,
      w\<lparr>dbs := (dbs w)(output_db \<mapsto> refused (dbs w output_db) df),
        trace := trace w @ refused_events\<rparr>)"
  by (cases "dbs w output_db")
     (auto simp add: store_def to_sql_replace_eq sqlite3_connect_def
        create_table_if_not_exists_def log_def the_db_def
        refused_events_def refused_def output_db_def split: option.splits)

lemma pd_concat_eq: "objs \<noteq> [] \<Longrightarrow> pd_concat objs = Inr (combined objs)"
  by (simp add: pd_concat_def combined_def Let_def)

lemma main_ok:
  assumes "\<forall>y\<in>set years. files w (csv_path y) \<noteq> Some Malformed"
    and "found (files w) years \<noteq> []"
    and "sql_error (all_cars_frame (files w)) = None"
  shows "main w =
     (Inr (),
      w\<lparr>dbs := (dbs w)(output_db \<mapsto> written (dbs w output_db) (all_cars_frame (files w))),
        trace := trace w @ scan_events (files w) years @ store_events\<rparr>)"
  using assms(2,3)
  by (simp add: main_def range_years scan_ok [OF assms(1)] pd_concat_eq store_ok
        all_cars_frame_def collected_def)

lemma main_refused:
  assumes "\<forall>y\<in>set years. files w (csv_path y) \<noteq> Some Malformed"
    and "found (files w) years \<noteq> []"
    and "sql_error (all_cars_frame (files w)) = Some e"
  shows "main w =
     (Inl e,
      w\<lparr>dbs := (dbs w)(output_db \<mapsto> refused (dbs w output_db) (all_cars_frame (files w))),
        trace := trace w @ scan_events (files w) years @ refused_events\<rparr>)"
  using assms(2,3)
  by (simp add: main_def range_years scan_ok [OF assms(1)] pd_concat_eq store_refused
        all_cars_frame_def collected_def)

lemma main_nodata:
  assumes "\<forall>y\<in>set years. files w (csv_path y) \<noteq> Some Malformed"
    and "found (files w) years = []"
  shows "main w =
     (Inl (FileNotFoundError ''No CSV files found for the specified range.''),
      w\<lparr>trace := trace w @ scan_events (files w) years\<rparr>)"
  using assms(2) by (simp add: main_def range_years scan_ok [OF assms(1)])

lemma main_bad:
  assumes "years = xs @ y # ys"
    and "\<forall>y\<in>set xs. files w (csv_path y) \<noteq> Some Malformed"
    and "files w (csv_path y) = Some Malformed"
  shows "main w =
     (Inl ParserError,
      w\<lparr>trace := trace w @ scan_events (files w) xs @ [Exists (csv_path y), ReadCsv (csv_path y)]\<rparr>)"
  by (simp add: main_def range_years assms(1) scan_bad [OF assms(2,3)])

lemma found_empty_iff:
  "(found fs ys = []) = (\<forall>y\<in>set ys. \<forall>df. fs (csv_path y) \<noteq> Some (Csv df))"
  by (induction ys) (auto simp add: found_def split: option.splits csv_file.splits)

lemma first_malformed:
  assumes "\<exists>y\<in>set zs. files w (csv_path y) = Some Malformed"
  obtains xs y ys where "zs = xs @ y # ys"
    and "\<forall>y\<in>set xs. files w (csv_path y) \<noteq> Some Malformed"
    and "files w (csv_path y) = Some Malformed"
  using split_list_first_prop [OF assms] by blast

lemma sql_error_cases:
  obtains "sql_error df = None" | e where "sql_error df = Some e" and "e = OperationalError \<or> e = OverflowError"
  by (cases "labels_clash (columns df)"; cases "overflows df") (simp_all add: sql_error_def)

lemma main_cases [case_names ok refused nodata bad]:
  obtains
    "\<forall>y\<in>set years. files w (csv_path y) \<noteq> Some Malformed" and "found (files w) years \<noteq> []"
      and "sql_error (all_cars_frame (files w)) = None"
      and "main w =
        (Inr (),
         w\<lparr>dbs := (dbs w)(output_db \<mapsto> written (dbs w output_db) (all_cars_frame (files w))),
           trace := trace w @ scan_events (files w) years @ store_events\<rparr>)"
  | e where "\<forall>y\<in>set years. files w (csv_path y) \<noteq> Some Malformed"
      and "found (files w) years \<noteq> []"
      and "sql_error (all_cars_frame (files w)) = Some e"
      and "e = OperationalError \<or> e = OverflowError"
      and "main w =
        (Inl e,
         w\<lparr>dbs := (dbs w)(output_db \<mapsto> refused (dbs w output_db) (all_cars_frame (files w))),
           trace := trace w @ scan_events (files w) years @ refused_events\<rparr>)"
  | "\<forall>y\<in>set years. files w (csv_path y) \<noteq> Some Malformed" and "found (files w) years = []"
      and "main w =
        (Inl (FileNotFoundError ''No CSV files found for the specified range.''),
         w\<lparr>trace := trace w @ scan_events (files w) years\<rparr>)"
  | xs y ys where "years = xs @ y # ys"
      and "\<forall>y\<in>set xs. files w (csv_path y) \<noteq> Some Malformed"
      and "files w (csv_path y) = Some Malformed"
      and "main w =
        (Inl ParserError,
         w\<lparr>trace := trace w @ scan_events (files w) (xs @ [y])\<rparr>)"
proof (cases "\<exists>y\<in>set years. files w (csv_path y) = Some Malformed")
  case True
  then obtain xs y ys where *: "years = xs @ y # ys"
      "\<forall>y\<in>set xs. files w (csv_path y) \<noteq> Some Malformed" "files w (csv_path y) = Some Malformed"
    by (rule first_malformed)
  have "scan_events (files w) (xs @ [y]) =
      scan_events (files w) xs @ [Exists (csv_path y), ReadCsv (csv_path y)]"
    using *(3) by (simp add: scan_events_def)
  with main_bad [OF *] * that(4) show ?thesis by simp
next
  case False
  then have ok: "\<forall>y\<in>set years. files w (csv_path y) \<noteq> Some Malformed" by simp
  show ?thesis
  proof (cases "found (files w) years = []")
    case True
    with ok main_nodata [OF ok True] that(3) show ?thesis by simp
  next
    case False
    show ?thesis
    proof (cases "all_cars_frame (files w)" rule: sql_error_cases)
      case 1
      from that(1) [OF ok False 1 main_ok [OF ok False 1]] show ?thesis .
    next
      case (2 e)
      from that(2) [OF ok False 2 main_refused [OF ok False 2(1)]] show ?thesis .
    qed
  qed
qed

subsection \<open>The table a successful run writes\<close>

lemma set_union_columns: "set (union_columns css) = \<Union> (set ` set css)"
  by (simp add: union_columns_def)

lemma distinct_union_columns: "distinct (union_columns css)"
  by (simp add: union_columns_def)

lemma columns_tagged: "set (columns (tagged (y, df))) = insert ''year'' (set (columns df))"
  by (auto simp add: tagged_def setitem_def)

lemma rows_tagged: "rows (tagged (y, df)) = map (\<lambda>r. r(''year'' \<mapsto> IntCell y)) (rows df)"
  by (simp add: tagged_def setitem_def)

lemma rows_combined_found:
  "concat (map (\<lambda>df. map (\<lambda>r. upcast f (reindex cols r)) (rows df)) (map tagged (found fs ys))) =
   concat (map (block_with f fs cols) ys)"
  by (induction ys)
     (auto simp add: found_def block_with_def rows_tagged persisted_def comp_def
        split: option.splits csv_file.splits)

lemma rows_frame:
  "rows (all_cars_frame fs) = concat (map (block fs (columns (all_cars_frame fs))) years)"
proof -
  have "block fs cols = block_with (floated (collected fs)) fs cols" for cols
    by (rule ext) (simp add: block_def)
  then show ?thesis
    by (simp add: all_cars_frame_def combined_def rows_combined_found collected_def
          del: map_map)
qed

lemma columns_combined_found:
  "set (columns (combined (map tagged (found fs ys)))) =
   (\<Union>y\<in>set ys. header fs y) \<union> (if found fs ys = [] then {} else {''year''})"
  by (induction ys)
     (auto simp add: combined_def set_union_columns found_def header_def columns_tagged
        split: option.splits csv_file.splits if_splits)

lemma columns_frame:
  "found fs years \<noteq> [] \<Longrightarrow>
   set (columns (all_cars_frame fs)) = (\<Union>y\<in>set years. header fs y) \<union> {''year''}"
  by (simp add: all_cars_frame_def collected_def columns_combined_found)

lemma distinct_columns_frame: "distinct (columns (all_cars_frame fs))"
  by (simp add: all_cars_frame_def combined_def distinct_union_columns)

lemma year_in_frame: "found fs years \<noteq> [] \<Longrightarrow> ''year'' \<in> set (columns (all_cars_frame fs))"
  by (simp add: columns_frame)

lemma col_cells_year:
  "v \<in> set (col_cells (map tagged fnd) ''year'') \<Longrightarrow> \<exists>i. v = IntCell i"
  by (induction fnd) (auto simp add: col_cells_def rows_tagged cell_at_def split: if_splits)

lemma year_not_floated: "\<not> floated (map tagged fnd) ''year''"
proof -
  have "\<not> list_ex (\<lambda>df. ''year'' \<notin> set (columns df)) (map tagged fnd)"
    by (auto simp add: list_ex_iff columns_tagged)
  moreover have "\<not> list_ex is_float (col_cells (map tagged fnd) ''year'')"
  proof
    assume "list_ex is_float (col_cells (map tagged fnd) ''year'')"
    then obtain v where v: "v \<in> set (col_cells (map tagged fnd) ''year'')" and f: "is_float v"
      by (auto simp add: list_ex_iff)
    from col_cells_year [OF v] obtain i where "v = IntCell i" by (elim exE)
    with f show False by simp
  qed
  ultimately show ?thesis by (simp add: floated_def)
qed

lemma year_not_floated_collected: "\<not> floated (collected fs) ''year''"
  unfolding collected_def by (rule year_not_floated)

lemma persisted_year:
  "''year'' \<in> set cols \<Longrightarrow> \<not> f ''year'' \<Longrightarrow> persisted f cols y r ''year'' = Some (IntCell y)"
  by (simp add: persisted_def upcast_def reindex_def cell_at_def)


lemma block_parsed:
  "fs (csv_path y) = Some (Csv df) \<Longrightarrow>
   block fs cols y = map (persisted (floated (collected fs)) cols y) (rows df)"
  by (simp add: block_def block_with_def)

lemma block_rows_year:
  "''year'' \<in> set cols \<Longrightarrow> \<forall>y. \<forall>r\<in>set (block fs cols y). r ''year'' = Some (IntCell y)"
  by (auto simp add: block_def block_with_def persisted_year year_not_floated_collected
        split: option.splits csv_file.splits)

lemma block_year:
  "''year'' \<in> set cols \<Longrightarrow>
   map (\<lambda>r. r ''year'') (block fs cols y) = replicate (nrows fs y) (Some (IntCell y))"
  by (simp add: block_def block_with_def nrows_def persisted_year year_not_floated_collected
        map_replicate_const comp_def split: option.splits csv_file.splits)


lemma all_cars_table_store:
  "all_cars_table (w\<lparr>dbs := (dbs w)(output_db \<mapsto> written old df), trace := evs\<rparr>) = Some df"
  by (simp add: all_cars_table_def written_def)

lemma main_success:
  assumes "main w = (Inr u, w')"
  shows "\<forall>y\<in>set years. files w (csv_path y) \<noteq> Some Malformed"
    and "found (files w) years \<noteq> []"
    and "sql_error (all_cars_frame (files w)) = None"
    and "w' = w\<lparr>dbs := (dbs w)(output_db \<mapsto>
              written (dbs w output_db) (all_cars_frame (files w))),
        trace := trace w @ scan_events (files w) years @ store_events\<rparr>"
  using assms by (cases w rule: main_cases; simp)+

lemma main_success_table:
  assumes "main w = (Inr u, w')"
  shows "all_cars_table w' = Some (all_cars_frame (files w))"
  by (simp only: main_success(4) [OF assms] all_cars_table_store)

lemma outcome_pair: "fst (main w) = r \<Longrightarrow> main w = (r, snd (main w))"
  by (cases "main w") simp

lemma main_success_iff:
  "(fst (main w) = Inr ()) =
   ((\<forall>y\<in>set years. files w (csv_path y) \<noteq> Some Malformed) \<and> found (files w) years \<noteq> [] \<and>
    sql_error (all_cars_frame (files w)) = None)"
proof
  assume "fst (main w) = Inr ()"
  then have "main w = (Inr (), snd (main w))" by (rule outcome_pair)
  from main_success(1,2,3) [OF this] show
    "(\<forall>y\<in>set years. files w (csv_path y) \<noteq> Some Malformed) \<and> found (files w) years \<noteq> [] \<and>
     sql_error (all_cars_frame (files w)) = None"
    by (intro conjI)
next
  assume "(\<forall>y\<in>set years. files w (csv_path y) \<noteq> Some Malformed) \<and> found (files w) years \<noteq> [] \<and>
    sql_error (all_cars_frame (files w)) = None"
  then have "main w =
     (Inr (),
      w\<lparr>dbs := (dbs w)(output_db \<mapsto> written (dbs w output_db) (all_cars_frame (files w))),
        trace := trace w @ scan_events (files w) years @ store_events\<rparr>)"
    by (intro main_ok) simp_all
  then show "fst (main w) = Inr ()" by simp
qed

subsection \<open>The calls of a run\<close>

lemma set_years: "set years = {1992..2026}"
  by (simp only: years_upto set_upto)

lemma scan_events_absent:
  "\<forall>y\<in>set ys. fs (csv_path y) = None \<Longrightarrow>
   scan_events fs ys = concat (map (\<lambda>y. [Exists (csv_path y), Print (skip_notice y)]) ys)"
  by (induction ys) (simp_all add: scan_events_def)

lemma store_free_scan_events: "filter store_event (scan_events fs ys) = []"
  by (induction ys) (simp_all add: scan_events_def)

lemma years_list:
  "years = [1992, 1993, 1994, 1995, 1996, 1997, 1998, 1999, 2000, 2001, 2002, 2003, 2004, 2005, 2006, 2007, 2008, 2009, 2010, 2011, 2012, 2013, 2014, 2015, 2016, 2017, 2018, 2019, 2020, 2021, 2022, 2023, 2024, 2025, 2026]"
  by (simp add: years_def range_py_def)

lemma length_years: "length years = 35"
  by (simp add: years_list)

lemma probed_append [simp]: "probed (xs @ ys) = probed xs @ probed ys"
  by (simp add: probed_def)

lemma reads_append [simp]: "reads (xs @ ys) = reads xs @ reads ys"
  by (simp add: reads_def)

lemma console_append [simp]: "console (xs @ ys) = console xs @ console ys"
  by (simp add: console_def)

lemma probed_scan_events: "probed (scan_events fs ys) = map csv_path ys"
  by (induction ys) (simp_all add: scan_events_def probed_def)

lemma reads_scan_events:
  "reads (scan_events fs ys) = map csv_path (filter (\<lambda>y. fs (csv_path y) \<noteq> None) ys)"
  by (induction ys) (simp_all add: scan_events_def reads_def)

lemma console_scan_events:
  "console (scan_events fs ys) = map skip_notice (filter (\<lambda>y. fs (csv_path y) = None) ys)"
  by (induction ys) (simp_all add: scan_events_def console_def)

lemma probed_store_events [simp]: "probed store_events = []"
  by (simp add: store_events_def probed_def)

lemma reads_store_events [simp]: "reads store_events = []"
  by (simp add: store_events_def reads_def)

lemma digit_char_digit: "d < 10 \<Longrightarrow> digit_char d \<in> set ''0123456789''"
  unfolding digit_char_def by (rule nth_mem) simp

lemma str_nat_digits: "str_nat n \<noteq> [] \<and> set (str_nat n) \<subseteq> set ''0123456789''"
proof (induction n rule: str_nat.induct)
  case (1 n)
  show ?case
  proof (cases "n < 10")
    case True
    then show ?thesis
      using digit_char_digit [of n] by (subst (1 2) str_nat.simps) simp
  next
    case False
    have "n mod 10 < 10" by simp
    then show ?thesis
      using False "1.IH" digit_char_digit [of "n mod 10"]
      by (subst (1 2) str_nat.simps) simp
  qed
qed

lemma hd_str: "str y \<noteq> [] \<and> hd (str y) \<noteq> CHR ''/''"
proof (cases "y < 0")
  case True
  then show ?thesis by (simp add: str_def)
next
  case False
  have "hd (str_nat (nat y)) \<in> set ''0123456789''"
    using str_nat_digits [of "nat y"] hd_in_set [of "str_nat (nat y)"] by blast
  then have "hd (str_nat (nat y)) \<noteq> CHR ''/''" by auto
  with False str_nat_digits [of "nat y"] show ?thesis by (simp add: str_def)
qed

lemma csv_path_shape: "csv_path y = ''./us_car_models_data_master/'' @ str y @ ''.csv''"
  using hd_str [of y] by (simp add: csv_path_def os_path_join_def csv_folder_def)

lemma written_twice: "written (Some (written old df)) df = written old df"
  by (simp add: written_def)

lemma console_store_events:
  "console store_events = [''All cars data merged and stored in ./cars.db as 'all_cars'.'']"
  by (simp add: store_events_def console_def)

lemma some_present_found:
  assumes "y \<in> set ys" and "fs (csv_path y) \<noteq> None"
    and "\<forall>y\<in>set ys. fs (csv_path y) \<noteq> Some Malformed"
  shows "found fs ys \<noteq> []"
proof -
  from assms(1,3) have "fs (csv_path y) \<noteq> Some Malformed" by blast
  with assms(2) obtain df where "fs (csv_path y) = Some (Csv df)"
    by (cases "fs (csv_path y)"; cases "the (fs (csv_path y))") auto
  with assms(1) show ?thesis by (auto simp add: found_empty_iff)
qed

lemma no_store_event_scan: "e \<in> set (scan_events fs ys) \<Longrightarrow> \<not> store_event e"
  using store_free_scan_events [of fs ys] by (simp add: filter_empty_conv)

lemma dropWhile_scan_events:
  "dropWhile (\<lambda>e. \<not> store_event e) (scan_events fs ys @ evs) =
   dropWhile (\<lambda>e. \<not> store_event e) evs"
  by (rule dropWhile_append2) (rule no_store_event_scan)

lemma concat_map_without:
  "f y = [] \<Longrightarrow> concat (map f (filter (\<lambda>x. x \<noteq> y) xs)) = concat (map f xs)"
  by (induction xs) auto

lemma parsed_found:
  assumes "y \<in> set ys" and "fs (csv_path y) = Some (Csv df)"
  shows "found fs ys \<noteq> []"
  using assms by (auto simp add: found_empty_iff)

lemma probed_refused_events [simp]: "probed refused_events = []"
  by (simp add: refused_events_def probed_def)

lemma reads_refused_events [simp]: "reads refused_events = []"
  by (simp add: refused_events_def reads_def)

lemma console_refused_events [simp]: "console refused_events = []"
  by (simp add: refused_events_def console_def)

lemma reached_all:
  "\<forall>y\<in>set ys. fs (csv_path y) \<noteq> Some Malformed \<Longrightarrow> reached fs ys = ys"
proof -
  assume a: "\<forall>y\<in>set ys. fs (csv_path y) \<noteq> Some Malformed"
  then have "takeWhile (\<lambda>y. fs (csv_path y) \<noteq> Some Malformed) ys = ys"
    by (simp add: takeWhile_eq_all_conv)
  moreover from a have "dropWhile (\<lambda>y. fs (csv_path y) \<noteq> Some Malformed) ys = []"
    by (simp add: dropWhile_eq_Nil_conv)
  ultimately show ?thesis by (simp only: reached_def take_Nil append_Nil2)
qed

lemma reached_bad:
  assumes "\<forall>y\<in>set xs. fs (csv_path y) \<noteq> Some Malformed" and "fs (csv_path y) = Some Malformed"
  shows "reached fs (xs @ y # ys) = xs @ [y]"
proof -
  have "takeWhile (\<lambda>y. fs (csv_path y) \<noteq> Some Malformed) (xs @ y # ys) = xs"
    using assms by (simp add: takeWhile_append2)
  moreover have "dropWhile (\<lambda>y. fs (csv_path y) \<noteq> Some Malformed) (xs @ y # ys) = y # ys"
    using assms by (simp add: dropWhile_append2)
  ultimately show ?thesis by (simp add: reached_def)
qed

lemma main_trace:
  "\<exists>tl. trace (snd (main w)) = trace w @ scan_events (files w) (reached (files w) years) @ tl \<and>
     probed tl = [] \<and> reads tl = [] \<and>
     console tl =
       (if fst (main w) = Inr ()
        then [''All cars data merged and stored in ./cars.db as 'all_cars'.''] else [])"
proof (cases w rule: main_cases)
  case ok
  have r: "reached (files w) years = years" using ok(1) by (rule reached_all)
  show ?thesis
    unfolding ok(4) r by (intro exI [of _ store_events]) (simp add: console_store_events)
next
  case (refused e)
  have r: "reached (files w) years = years" using refused(1) by (rule reached_all)
  show ?thesis
    unfolding refused(5) r by (intro exI [of _ refused_events]) simp
next
  case nodata
  have r: "reached (files w) years = years" using nodata(1) by (rule reached_all)
  show ?thesis
    unfolding nodata(3) r by (intro exI [of _ "[]"]) (simp add: probed_def reads_def console_def)
next
  case (bad xs y ys)
  have r: "reached (files w) years = xs @ [y]"
    unfolding bad(1) using bad(2,3) by (rule reached_bad)
  show ?thesis
    unfolding bad(4) r by (intro exI [of _ "[]"]) (simp add: probed_def reads_def console_def)
qed

lemma main_probed:
  "probed (trace (snd (main w))) = probed (trace w) @ map csv_path (reached (files w) years)"
  using main_trace [of w] by (auto simp add: probed_scan_events)

lemma main_reads:
  "reads (trace (snd (main w))) =
   reads (trace w) @
   map csv_path (filter (\<lambda>y. files w (csv_path y) \<noteq> None) (reached (files w) years))"
  using main_trace [of w] by (auto simp add: reads_scan_events)

lemma main_console:
  "console (trace (snd (main w))) =
   console (trace w) @
   map skip_notice (filter (\<lambda>y. files w (csv_path y) = None) (reached (files w) years)) @
   (if fst (main w) = Inr ()
    then [''All cars data merged and stored in ./cars.db as 'all_cars'.''] else [])"
proof -
  from main_trace [of w] obtain tl where
    "trace (snd (main w)) = trace w @ scan_events (files w) (reached (files w) years) @ tl"
    "console tl =
       (if fst (main w) = Inr ()
        then [''All cars data merged and stored in ./cars.db as 'all_cars'.''] else [])"
    by (elim exE conjE)
  then show ?thesis by (simp add: console_scan_events)
qed

lemma main_order:
  "\<exists>evs. trace (snd (main w)) = trace w @ evs \<and>
     reads (dropWhile (\<lambda>e. \<not> store_event e) evs) = []"
proof (cases w rule: main_cases)
  case ok
  have "reads (dropWhile (\<lambda>e. \<not> store_event e) (scan_events (files w) years @ store_events)) = []"
    by (simp only: dropWhile_scan_events) (simp add: store_events_def reads_def)
  then show ?thesis using ok(4) by simp
next
  case (refused e)
  have "reads (dropWhile (\<lambda>e. \<not> store_event e) (scan_events (files w) years @ refused_events)) = []"
    by (simp only: dropWhile_scan_events) (simp add: refused_events_def reads_def)
  then show ?thesis using refused(5) by simp
next
  case nodata
  have "reads (dropWhile (\<lambda>e. \<not> store_event e) (scan_events (files w) years @ [])) = []"
    by (simp only: dropWhile_scan_events) (simp add: reads_def)
  then show ?thesis using nodata(3) by simp
next
  case (bad xs y ys)
  have "reads (dropWhile (\<lambda>e. \<not> store_event e) (scan_events (files w) (xs @ [y]) @ [])) = []"
    by (simp only: dropWhile_scan_events) (simp add: reads_def)
  then show ?thesis using bad(4) by simp
qed

lemma main_malformed:
  assumes "y \<in> set years" and "files w (csv_path y) = Some Malformed"
  shows "\<exists>zs. main w = (Inl ParserError, w\<lparr>trace := trace w @ scan_events (files w) zs\<rparr>)"
proof (cases w rule: main_cases)
  case ok
  from ok(1) assms(1) have "files w (csv_path y) \<noteq> Some Malformed" by (rule bspec)
  with assms(2) show ?thesis by simp
next
  case (refused e)
  from refused(1) assms(1) have "files w (csv_path y) \<noteq> Some Malformed" by (rule bspec)
  with assms(2) show ?thesis by simp
next
  case nodata
  from nodata(1) assms(1) have "files w (csv_path y) \<noteq> Some Malformed" by (rule bspec)
  with assms(2) show ?thesis by simp
next
  case (bad xs y ys)
  from bad(4) show ?thesis by (rule exI)
qed

subsection \<open>Running again\<close>

lemma refused_twice: "refused (Some (refused old df)) df = refused old df"
  by (simp add: refused_def)

lemma main_files: "files (snd (main w)) = files w"
  by (cases w rule: main_cases) simp_all

lemma main_outcome_files:
  assumes "files w0 = files w"
  shows "fst (main w0) = fst (main w)"
proof (cases w rule: main_cases)
  case ok
  from main_ok [of w0] ok(1,2,3) show ?thesis by (simp add: assms ok(4))
next
  case (refused e)
  from main_refused [of w0 e] refused(1,2,3) show ?thesis by (simp add: assms refused(5))
next
  case nodata
  from main_nodata [of w0] nodata(1,2) show ?thesis by (simp add: assms nodata(3))
next
  case (bad xs y ys)
  from main_bad [of xs y ys w0] bad(1,2,3) show ?thesis by (simp add: assms bad(4))
qed

lemma main_table_files:
  assumes "files w0 = files w" and "fst (main w) = Inr ()"
  shows "all_cars_table (snd (main w0)) = all_cars_table (snd (main w))"
proof -
  have 1: "main w = (Inr (), snd (main w))"
    using assms(2) by (rule outcome_pair)
  have "fst (main w0) = Inr ()"
    using main_outcome_files [OF assms(1)] assms(2) by simp
  then have 2: "main w0 = (Inr (), snd (main w0))"
    by (rule outcome_pair)
  show ?thesis
    by (simp only: main_success_table [OF 1] main_success_table [OF 2] assms(1))
qed

lemma main_dbs_again: "dbs (snd (main (snd (main w)))) = dbs (snd (main w))"
proof (cases w rule: main_cases)
  case ok
  let ?w1 = "snd (main w)"
  have f: "files ?w1 = files w" by (rule main_files)
  have "main ?w1 =
     (Inr (),
      ?w1\<lparr>dbs := (dbs ?w1)(output_db \<mapsto> written (dbs ?w1 output_db) (all_cars_frame (files ?w1))),
        trace := trace ?w1 @ scan_events (files ?w1) years @ store_events\<rparr>)"
    using ok(1,2,3) by (intro main_ok) (simp_all add: f)
  then show ?thesis
    by (simp add: f) (simp add: ok(4) written_twice)
next
  case (refused e)
  let ?w1 = "snd (main w)"
  have f: "files ?w1 = files w" by (rule main_files)
  have "main ?w1 =
     (Inl e,
      ?w1\<lparr>dbs := (dbs ?w1)(output_db \<mapsto> refused (dbs ?w1 output_db) (all_cars_frame (files ?w1))),
        trace := trace ?w1 @ scan_events (files ?w1) years @ refused_events\<rparr>)"
    using refused(1,2,3) by (intro main_refused) (simp_all add: f)
  then show ?thesis
    by (simp add: f) (simp add: refused(5) refused_twice)
next
  case nodata
  let ?w1 = "snd (main w)"
  have f: "files ?w1 = files w" by (rule main_files)
  have "main ?w1 =
     (Inl (FileNotFoundError ''No CSV files found for the specified range.''),
      ?w1\<lparr>trace := trace ?w1 @ scan_events (files ?w1) years\<rparr>)"
    using nodata(1,2) by (intro main_nodata) (simp_all add: f)
  then show ?thesis by simp
next
  case (bad xs y ys)
  let ?w1 = "snd (main w)"
  have f: "files ?w1 = files w" by (rule main_files)
  have "main ?w1 =
     (Inl ParserError,
      ?w1\<lparr>trace := trace ?w1 @ scan_events (files ?w1) xs @
           [Exists (csv_path y), ReadCsv (csv_path y)]\<rparr>)"
    using bad(1,2,3) by (intro main_bad) (simp_all add: f)
  then show ?thesis by simp
qed

subsection \<open>Columns and the declared table\<close>

lemma header_subset:
  assumes "y \<in> set years" and "fs (csv_path y) = Some (Csv df)"
  shows "set (columns df) \<subseteq> set (columns (all_cars_frame fs))"
proof -
  have "header fs y = set (columns df)"
    using assms(2) by (simp add: header_def)
  moreover have "found fs years \<noteq> []"
    using assms by (rule parsed_found)
  ultimately show ?thesis
    using assms(1) by (auto simp add: columns_frame)
qed

lemma the_db_create:
  "the_db (create_table_if_not_exists w conn name cols) (db_path conn) =
     (case the_db w (db_path conn) name of
        None \<Rightarrow> (the_db w (db_path conn))(name \<mapsto> \<lparr>columns = cols, rows = []\<rparr>)
      | Some t \<Rightarrow> the_db w (db_path conn))"
  by (simp add: create_table_if_not_exists_def log_def the_db_def split: option.splits)

lemma replace_after_create:
  "(case to_sql_replace (create_table_if_not_exists w conn name cols) df name conn of
      (r, w') \<Rightarrow> (r, dbs w')) =
   (case to_sql_replace w df name conn of (r, w') \<Rightarrow> (r, dbs w'))"
proof -
  have "(the_db (create_table_if_not_exists w conn name cols) (db_path conn))(name := x) =
      (the_db w (db_path conn))(name := x)" for x
    by (simp add: the_db_create split: option.splits)
  moreover have "(dbs (create_table_if_not_exists w conn name cols))(db_path conn := x) =
      (dbs w)(db_path conn := x)" for x
    by (simp add: create_table_if_not_exists_def log_def split: option.splits)
  ultimately show ?thesis
    by (simp add: to_sql_replace_eq split: option.splits)
qed

lemma replace_success:
  "fst (to_sql_replace w df name conn) = Inr () \<Longrightarrow>
   the_db (snd (to_sql_replace w df name conn)) (db_path conn) name = Some df"
  by (simp add: to_sql_replace_eq the_db_def split: option.splits)

subsection \<open>The candidate paths, evaluated\<close>

lemma csv_path_eval:
  "csv_path 1992 = ''./us_car_models_data_master/1992.csv''"
  "csv_path 1993 = ''./us_car_models_data_master/1993.csv''"
  "csv_path 1994 = ''./us_car_models_data_master/1994.csv''"
  "csv_path 1995 = ''./us_car_models_data_master/1995.csv''"
  "csv_path 1996 = ''./us_car_models_data_master/1996.csv''"
  "csv_path 1997 = ''./us_car_models_data_master/1997.csv''"
  "csv_path 1998 = ''./us_car_models_data_master/1998.csv''"
  "csv_path 1999 = ''./us_car_models_data_master/1999.csv''"
  "csv_path 2000 = ''./us_car_models_data_master/2000.csv''"
  "csv_path 2001 = ''./us_car_models_data_master/2001.csv''"
  "csv_path 2002 = ''./us_car_models_data_master/2002.csv''"
  "csv_path 2003 = ''./us_car_models_data_master/2003.csv''"
  "csv_path 2004 = ''./us_car_models_data_master/2004.csv''"
  "csv_path 2005 = ''./us_car_models_data_master/2005.csv''"
  "csv_path 2006 = ''./us_car_models_data_master/2006.csv''"
  "csv_path 2007 = ''./us_car_models_data_master/2007.csv''"
  "csv_path 2008 = ''./us_car_models_data_master/2008.csv''"
  "csv_path 2009 = ''./us_car_models_data_master/2009.csv''"
  "csv_path 2010 = ''./us_car_models_data_master/2010.csv''"
  "csv_path 2011 = ''./us_car_models_data_master/2011.csv''"
  "csv_path 2012 = ''./us_car_models_data_master/2012.csv''"
  "csv_path 2013 = ''./us_car_models_data_master/2013.csv''"
  "csv_path 2014 = ''./us_car_models_data_master/2014.csv''"
  "csv_path 2015 = ''./us_car_models_data_master/2015.csv''"
  "csv_path 2016 = ''./us_car_models_data_master/2016.csv''"
  "csv_path 2017 = ''./us_car_models_data_master/2017.csv''"
  "csv_path 2018 = ''./us_car_models_data_master/2018.csv''"
  "csv_path 2019 = ''./us_car_models_data_master/2019.csv''"
  "csv_path 2020 = ''./us_car_models_data_master/2020.csv''"
  "csv_path 2021 = ''./us_car_models_data_master/2021.csv''"
  "csv_path 2022 = ''./us_car_models_data_master/2022.csv''"
  "csv_path 2023 = ''./us_car_models_data_master/2023.csv''"
  "csv_path 2024 = ''./us_car_models_data_master/2024.csv''"
  "csv_path 2025 = ''./us_car_models_data_master/2025.csv''"
  "csv_path 2026 = ''./us_car_models_data_master/2026.csv''"
  by (simp_all add: csv_path_def os_path_join_def csv_folder_def str_def str_nat.simps
        digit_char_def)

lemma skip_notice_eval:
  "skip_notice 1992 = ''File 1992.csv not found, skipping.''"
  "skip_notice 1993 = ''File 1993.csv not found, skipping.''"
  "skip_notice 1994 = ''File 1994.csv not found, skipping.''"
  "skip_notice 1995 = ''File 1995.csv not found, skipping.''"
  "skip_notice 1996 = ''File 1996.csv not found, skipping.''"
  "skip_notice 1997 = ''File 1997.csv not found, skipping.''"
  "skip_notice 1998 = ''File 1998.csv not found, skipping.''"
  "skip_notice 1999 = ''File 1999.csv not found, skipping.''"
  "skip_notice 2000 = ''File 2000.csv not found, skipping.''"
  "skip_notice 2001 = ''File 2001.csv not found, skipping.''"
  "skip_notice 2002 = ''File 2002.csv not found, skipping.''"
  "skip_notice 2003 = ''File 2003.csv not found, skipping.''"
  "skip_notice 2004 = ''File 2004.csv not found, skipping.''"
  "skip_notice 2005 = ''File 2005.csv not found, skipping.''"
  "skip_notice 2006 = ''File 2006.csv not found, skipping.''"
  "skip_notice 2007 = ''File 2007.csv not found, skipping.''"
  "skip_notice 2008 = ''File 2008.csv not found, skipping.''"
  "skip_notice 2009 = ''File 2009.csv not found, skipping.''"
  "skip_notice 2010 = ''File 2010.csv not found, skipping.''"
  "skip_notice 2011 = ''File 2011.csv not found, skipping.''"
  "skip_notice 2012 = ''File 2012.csv not found, skipping.''"
  "skip_notice 2013 = ''File 2013.csv not found, skipping.''"
  "skip_notice 2014 = ''File 2014.csv not found, skipping.''"
  "skip_notice 2015 = ''File 2015.csv not found, skipping.''"
  "skip_notice 2016 = ''File 2016.csv not found, skipping.''"
  "skip_notice 2017 = ''File 2017.csv not found, skipping.''"
  "skip_notice 2018 = ''File 2018.csv not found, skipping.''"
  "skip_notice 2019 = ''File 2019.csv not found, skipping.''"
  "skip_notice 2020 = ''File 2020.csv not found, skipping.''"
  "skip_notice 2021 = ''File 2021.csv not found, skipping.''"
  "skip_notice 2022 = ''File 2022.csv not found, skipping.''"
  "skip_notice 2023 = ''File 2023.csv not found, skipping.''"
  "skip_notice 2024 = ''File 2024.csv not found, skipping.''"
  "skip_notice 2025 = ''File 2025.csv not found, skipping.''"
  "skip_notice 2026 = ''File 2026.csv not found, skipping.''"
  by (simp_all add: skip_notice_def str_def str_nat.simps digit_char_def)

lemma distinct_notices: "distinct (map skip_notice years)"
  by (simp add: years_list skip_notice_eval)

lemma lower_label_eval:
  "lower_label ''year'' = ''year''" "lower_label ''Year'' = ''year''"
  "lower_label ''make'' = ''make''" "lower_label ''Make'' = ''make''"
  "lower_label ''model'' = ''model''" "lower_label ''Model'' = ''model''"
  "lower_label ''body_styles'' = ''body_styles''" "lower_label ''trim'' = ''trim''"
  "lower_label ''doors'' = ''doors''"
  by (simp_all add: lower_label_def lower_ascii_def)

lemma rows_frame_eval:
  "rows (all_cars_frame fs) =
     concat (map (\<lambda>df. map (\<lambda>r. upcast (floated (collected fs))
                              (reindex (columns (all_cars_frame fs)) r)) (rows df)) (collected fs))"
  by (simp add: all_cars_frame_def combined_def)


lemma found_wA: "found (files wA) years = [(2020, dfA)]"
  by (simp add: found_def years_list csv_path_eval wA_def)

lemma ok_wA: "\<forall>y\<in>set years. files wA (csv_path y) \<noteq> Some Malformed"
  by (simp add: years_list csv_path_eval wA_def)

lemma columns_wA: "columns (all_cars_frame (files wA)) = [''make'', ''model'', ''body_styles'', ''year'']"
  by (simp add: all_cars_frame_def collected_def found_wA combined_def tagged_def setitem_def
        union_columns_def dfA_def)

lemma found_wA': "found (files wA') years = [(2020, dfA)]"
  by (simp add: found_def years_list csv_path_eval wA'_def)

lemma ok_wA': "\<forall>y\<in>set years. files wA' (csv_path y) \<noteq> Some Malformed"
  by (simp add: years_list csv_path_eval wA'_def)

lemma columns_wA': "columns (all_cars_frame (files wA')) = [''make'', ''model'', ''body_styles'', ''year'']"
  by (simp add: all_cars_frame_def collected_def found_wA' combined_def tagged_def setitem_def
        union_columns_def dfA_def)

lemma found_wD: "found (files wD) years = [(2020, dfD)]"
  by (simp add: found_def years_list csv_path_eval wD_def)

lemma ok_wD: "\<forall>y\<in>set years. files wD (csv_path y) \<noteq> Some Malformed"
  by (simp add: years_list csv_path_eval wD_def)

lemma columns_wD: "columns (all_cars_frame (files wD)) = [''year'', ''make'', ''model'', ''body_styles'']"
  by (simp add: all_cars_frame_def collected_def found_wD combined_def tagged_def setitem_def
        union_columns_def dfD_def)

lemma found_wB: "found (files wB) years = [(1992, \<lparr>columns = [''make'', ''model'', ''body_styles'', ''doors''], rows = [rB1]\<rparr>),
      (2026, \<lparr>columns = [''make'', ''model'', ''body_styles''], rows = [rB2]\<rparr>)]"
  by (simp add: found_def years_list csv_path_eval wB_def)

lemma ok_wB: "\<forall>y\<in>set years. files wB (csv_path y) \<noteq> Some Malformed"
  by (simp add: years_list csv_path_eval wB_def)

lemma columns_wB: "columns (all_cars_frame (files wB)) = [''make'', ''model'', ''body_styles'', ''doors'', ''year'']"
  by (simp add: all_cars_frame_def collected_def found_wB combined_def tagged_def setitem_def
        union_columns_def )

lemma found_wX: "found (files wX) years = [(2020, dfX)]"
  by (simp add: found_def years_list csv_path_eval wX_def)

lemma ok_wX: "\<forall>y\<in>set years. files wX (csv_path y) \<noteq> Some Malformed"
  by (simp add: years_list csv_path_eval wX_def)

lemma columns_wX: "columns (all_cars_frame (files wX)) = [''make'', ''trim'', ''year'']"
  by (simp add: all_cars_frame_def collected_def found_wX combined_def tagged_def setitem_def
        union_columns_def dfX_def)

lemma found_wE: "found (files wE) years = [(2020, dfE)]"
  by (simp add: found_def years_list csv_path_eval wE_def)

lemma ok_wE: "\<forall>y\<in>set years. files wE (csv_path y) \<noteq> Some Malformed"
  by (simp add: years_list csv_path_eval wE_def)

lemma columns_wE: "columns (all_cars_frame (files wE)) = [''make'', ''model'', ''body_styles'', ''year'']"
  by (simp add: all_cars_frame_def collected_def found_wE combined_def tagged_def setitem_def
        union_columns_def dfE_def)




lemma found_wH1: "found (files wH1) years = [(2020, dfH)]"
  by (simp add: found_def years_list csv_path_eval wH1_def)

lemma ok_wH1: "\<forall>y\<in>set years. files wH1 (csv_path y) \<noteq> Some Malformed"
  by (simp add: years_list csv_path_eval wH1_def)

lemma columns_wH1: "columns (all_cars_frame (files wH1)) = [''Year'', ''make'', ''year'']"
  by (simp add: all_cars_frame_def collected_def found_wH1 combined_def tagged_def setitem_def
        union_columns_def dfH_def)

lemma collected_wA: "collected (files wA) = [tagged (2020, dfA)]"
  by (simp add: collected_def found_wA)

lemma sql_wA: "sql_error (all_cars_frame (files wA)) = None"
proof -
  have "\<not> labels_clash (columns (all_cars_frame (files wA)))"
    by (simp add: labels_clash_def columns_wA lower_label_eval)
  moreover have "\<not> overflows (all_cars_frame (files wA))"
    by (simp add: overflows_def rows_frame_eval columns_wA collected_wA tagged_def setitem_def
          dfA_def upcast_def reindex_def cell_at_def)
  ultimately show ?thesis by (simp add: sql_error_def)
qed

lemma main_wA: "main wA = (Inr (), snd (main wA))"
  using ok_wA found_wA sql_wA by (intro outcome_pair) (simp add: main_success_iff)

lemma fst_main_wA: "fst (main wA) = Inr ()"
  by (subst main_wA) simp

lemma collected_wA': "collected (files wA') = [tagged (2020, dfA)]"
  by (simp add: collected_def found_wA')

lemma sql_wA': "sql_error (all_cars_frame (files wA')) = None"
proof -
  have "\<not> labels_clash (columns (all_cars_frame (files wA')))"
    by (simp add: labels_clash_def columns_wA' lower_label_eval)
  moreover have "\<not> overflows (all_cars_frame (files wA'))"
    by (simp add: overflows_def rows_frame_eval columns_wA' collected_wA' tagged_def setitem_def
          dfA_def upcast_def reindex_def cell_at_def)
  ultimately show ?thesis by (simp add: sql_error_def)
qed

lemma main_wA': "main wA' = (Inr (), snd (main wA'))"
  using ok_wA' found_wA' sql_wA' by (intro outcome_pair) (simp add: main_success_iff)

lemma fst_main_wA': "fst (main wA') = Inr ()"
  by (subst main_wA') simp

lemma collected_wD: "collected (files wD) = [tagged (2020, dfD)]"
  by (simp add: collected_def found_wD)

lemma sql_wD: "sql_error (all_cars_frame (files wD)) = None"
proof -
  have "\<not> labels_clash (columns (all_cars_frame (files wD)))"
    by (simp add: labels_clash_def columns_wD lower_label_eval)
  moreover have "\<not> overflows (all_cars_frame (files wD))"
    by (simp add: overflows_def rows_frame_eval columns_wD collected_wD tagged_def setitem_def
          dfD_def upcast_def reindex_def cell_at_def)
  ultimately show ?thesis by (simp add: sql_error_def)
qed

lemma main_wD: "main wD = (Inr (), snd (main wD))"
  using ok_wD found_wD sql_wD by (intro outcome_pair) (simp add: main_success_iff)

lemma fst_main_wD: "fst (main wD) = Inr ()"
  by (subst main_wD) simp

lemma collected_wB: "collected (files wB) = [tagged (1992, \<lparr>columns = [''make'', ''model'', ''body_styles'', ''doors''], rows = [rB1]\<rparr>),
      tagged (2026, \<lparr>columns = [''make'', ''model'', ''body_styles''], rows = [rB2]\<rparr>)]"
  by (simp add: collected_def found_wB)

lemma sql_wB: "sql_error (all_cars_frame (files wB)) = None"
proof -
  have "\<not> labels_clash (columns (all_cars_frame (files wB)))"
    by (simp add: labels_clash_def columns_wB lower_label_eval)
  moreover have "\<not> overflows (all_cars_frame (files wB))"
    by (simp add: overflows_def rows_frame_eval columns_wB collected_wB tagged_def setitem_def
          rB1_def rB2_def upcast_def reindex_def cell_at_def)
  ultimately show ?thesis by (simp add: sql_error_def)
qed

lemma main_wB: "main wB = (Inr (), snd (main wB))"
  using ok_wB found_wB sql_wB by (intro outcome_pair) (simp add: main_success_iff)

lemma fst_main_wB: "fst (main wB) = Inr ()"
  by (subst main_wB) simp

lemma collected_wX: "collected (files wX) = [tagged (2020, dfX)]"
  by (simp add: collected_def found_wX)

lemma sql_wX: "sql_error (all_cars_frame (files wX)) = None"
proof -
  have "\<not> labels_clash (columns (all_cars_frame (files wX)))"
    by (simp add: labels_clash_def columns_wX lower_label_eval)
  moreover have "\<not> overflows (all_cars_frame (files wX))"
    by (simp add: overflows_def rows_frame_eval columns_wX collected_wX tagged_def setitem_def
          dfX_def upcast_def reindex_def cell_at_def)
  ultimately show ?thesis by (simp add: sql_error_def)
qed

lemma main_wX: "main wX = (Inr (), snd (main wX))"
  using ok_wX found_wX sql_wX by (intro outcome_pair) (simp add: main_success_iff)

lemma fst_main_wX: "fst (main wX) = Inr ()"
  by (subst main_wX) simp

lemma collected_wE: "collected (files wE) = [tagged (2020, dfE)]"
  by (simp add: collected_def found_wE)

lemma sql_wE: "sql_error (all_cars_frame (files wE)) = None"
proof -
  have "\<not> labels_clash (columns (all_cars_frame (files wE)))"
    by (simp add: labels_clash_def columns_wE lower_label_eval)
  moreover have "\<not> overflows (all_cars_frame (files wE))"
    by (simp add: overflows_def rows_frame_eval columns_wE collected_wE tagged_def setitem_def
          dfE_def upcast_def reindex_def cell_at_def)
  ultimately show ?thesis by (simp add: sql_error_def)
qed

lemma main_wE: "main wE = (Inr (), snd (main wE))"
  using ok_wE found_wE sql_wE by (intro outcome_pair) (simp add: main_success_iff)

lemma fst_main_wE: "fst (main wE) = Inr ()"
  by (subst main_wE) simp



lemma sql_wH1: "sql_error (all_cars_frame (files wH1)) = Some OperationalError"
  by (simp add: sql_error_def labels_clash_def columns_wH1 lower_label_eval)


lemma main_wH1:
  "main wH1 =
     (Inl OperationalError,
      wH1\<lparr>dbs := (dbs wH1)(output_db \<mapsto> refused (dbs wH1 output_db) (all_cars_frame (files wH1))),
          trace := trace wH1 @ scan_events (files wH1) years @ refused_events\<rparr>)"
  using ok_wH1 _ sql_wH1 by (rule main_refused) (simp add: found_wH1)

lemma reached_wM:
  "reached (files wM) years =
     [1992, 1993, 1994, 1995, 1996, 1997, 1998, 1999, 2000, 2001, 2002, 2003, 2004, 2005,
      2006, 2007, 2008, 2009, 2010, 2011, 2012, 2013, 2014, 2015, 2016, 2017, 2018, 2019, 2020]"
  by (simp add: reached_def years_list csv_path_eval wM_def)

lemma fst_main_wM: "fst (main wM) = Inl ParserError"
proof -
  have "files wM (csv_path 2020) = Some Malformed"
    by (simp add: csv_path_eval wM_def)
  moreover have "2020 \<in> set years" by (simp add: years_list)
  ultimately obtain zs where
    "main wM = (Inl ParserError, wM\<lparr>trace := trace wM @ scan_events (files wM) zs\<rparr>)"
    using main_malformed by blast
  then show ?thesis by simp
qed

lemma fst_main_wH2: "fst (main wH2) = Inl ParserError"
proof -
  have "files wH2 (csv_path 2020) = Some Malformed"
    by (simp add: csv_path_eval wH2_def)
  moreover have "2020 \<in> set years" by (simp add: years_list)
  ultimately obtain zs where
    "main wH2 = (Inl ParserError, wH2\<lparr>trace := trace wH2 @ scan_events (files wH2) zs\<rparr>)"
    using main_malformed by blast
  then show ?thesis by simp
qed

section \<open>The claims\<close>

text \<open>
  Claim C1.  After a successful run the rows of the table \<^verbatim>\<open>all_cars\<close> are, year after
  year, the stored rows of each file, and every stored row of the file of year \<open>y\<close>
  holds \<open>y\<close> under \<^verbatim>\<open>year\<close>.  So the \<^verbatim>\<open>year\<close> column of the table is, for each year
  from 1992 to 2026 in turn, that year once for every row of its file.  Neither
  right-hand side looks at a \<^verbatim>\<open>year\<close> cell of a file: such a value never reaches the
  table.
\<close>

theorem year_is_filename_year:
  assumes "main w = (Inr u, w')"
  shows "\<exists>t. all_cars_table w' = Some t \<and>
     rows t = concat (map (block (files w) (columns t)) [1992..2026]) \<and>
     (\<forall>y. \<forall>r\<in>set (block (files w) (columns t) y). r ''year'' = Some (IntCell y)) \<and>
     map (\<lambda>r. r ''year'') (rows t) =
       concat (map (\<lambda>y. replicate (nrows (files w) y) (Some (IntCell y))) [1992..2026])"
proof -
  let ?t = "all_cars_frame (files w)"
  have t: "all_cars_table w' = Some ?t"
    using assms by (rule main_success_table)
  have yr: "''year'' \<in> set (columns ?t)"
    using main_success(2) [OF assms] by (rule year_in_frame)
  have r: "rows ?t = concat (map (block (files w) (columns ?t)) years)"
    by (rule rows_frame)
  have "map (\<lambda>r. r ''year'') (rows ?t) =
      concat (map (\<lambda>y. map (\<lambda>r. r ''year'') (block (files w) (columns ?t) y)) years)"
    by (subst r) (simp add: map_concat comp_def)
  also have "\<dots> = concat (map (\<lambda>y. replicate (nrows (files w) y) (Some (IntCell y))) years)"
    by (simp only: block_year [OF yr])
  finally have col: "map (\<lambda>r. r ''year'') (rows ?t) =
      concat (map (\<lambda>y. replicate (nrows (files w) y) (Some (IntCell y))) years)" .
  have b: "\<forall>y. \<forall>r\<in>set (block (files w) (columns ?t) y). r ''year'' = Some (IntCell y)"
    using yr by (rule block_rows_year)
  from t r b col show ?thesis
    unfolding years_upto [symmetric] by (intro exI [of _ ?t] conjI)
qed

theorem year_is_filename_year_witness:
  "main wD = (Inr (), snd (main wD)) \<and>
   map (\<lambda>r. r ''year'') (rows dfD) = [Some (IntCell 1999)] \<and>
   (\<exists>t. all_cars_table (snd (main wD)) = Some t \<and>
        map (\<lambda>r. r ''year'') (rows t) = [Some (IntCell 2020)])"
proof -
  have n: "concat (map (\<lambda>y. replicate (nrows (files wD) y) (Some (IntCell y))) [1992..2026]) =
      [Some (IntCell 2020)]"
    by (simp add: nrows_def csv_path_eval wD_def dfD_def)
  have t: "\<exists>t. all_cars_table (snd (main wD)) = Some t \<and>
        map (\<lambda>r. r ''year'') (rows t) = [Some (IntCell 2020)]"
    using year_is_filename_year [OF main_wD] unfolding n by (elim exE conjE) (intro exI conjI)
  have d: "map (\<lambda>r. r ''year'') (rows dfD) = [Some (IntCell 1999)]"
    by (simp add: dfD_def)
  from main_wD d t show ?thesis by (intro conjI)
qed

text \<open>
  Claim C2.  If no file \<^verbatim>\<open><year>.csv\<close> exists for any year from 1992 to 2026, the run
  raises \<^verbatim>\<open>FileNotFoundError\<close> with the message of line 27; the database files are
  what they were, and the calls made are one existence test and one skip notice per
  year, none of them a call to the store.
\<close>

theorem no_data_found:
  assumes "\<forall>y\<in>{1992..2026}. files w (csv_path y) = None"
  shows "fst (main w) = Inl (FileNotFoundError ''No CSV files found for the specified range.'') \<and>
     dbs (snd (main w)) = dbs w \<and>
     trace (snd (main w)) =
       trace w @ concat (map (\<lambda>y. [Exists (csv_path y), Print (skip_notice y)]) [1992..2026]) \<and>
     filter store_event (trace (snd (main w))) = filter store_event (trace w)"
proof -
  have none: "\<forall>y\<in>set years. files w (csv_path y) = None"
    using assms by (simp add: set_years)
  then have ok: "\<forall>y\<in>set years. files w (csv_path y) \<noteq> Some Malformed"
    by simp
  have "found (files w) years = []"
    using none by (simp add: found_empty_iff)
  from main_nodata [OF ok this] show ?thesis
    unfolding years_upto [symmetric]
    by (simp add: store_free_scan_events scan_events_absent [OF none])
qed

theorem no_data_found_witness:
  "filter (\<lambda>y. files wC (csv_path y) \<noteq> None) [1992..2026] = [] \<and>
   fst (main wC) = Inl (FileNotFoundError ''No CSV files found for the specified range.'') \<and>
   all_cars_table (snd (main wC)) = Some old_table \<and>
   filter store_event (trace (snd (main wC))) = []"
proof -
  have h: "\<forall>y\<in>{1992..2026}. files wC (csv_path y) = None"
    by (simp add: wC_def)
  have "filter (\<lambda>y. files wC (csv_path y) \<noteq> None) [1992..2026] = []"
    by (simp add: wC_def)
  then show ?thesis
    using no_data_found [OF h] by (simp add: all_cars_table_def) (simp add: wC_def output_db_def)
qed

text \<open>
  Claim C3, as amended.  The loop runs over the years 1992 to 2026, and the path it builds
  for a year is the source directory, a slash, the year in decimal and \<^verbatim>\<open>.csv\<close>.  In
  every run the paths tested for existence are those of the years reached, in order, and
  the paths read are those among them that exist, so nothing outside the range is tested
  or read.  The years reached are the years before the first one whose file is malformed
  and that year: the whole range if no file is malformed, and not the years after a
  malformed file.
\<close>

theorem scan_range:
  "years = [1992..2026] \<and>
   (\<forall>y. csv_path y = ''./us_car_models_data_master/'' @ str y @ ''.csv'') \<and>
   probed (trace (snd (main w))) =
     probed (trace w) @ map csv_path (reached (files w) [1992..2026]) \<and>
   reads (trace (snd (main w))) =
     reads (trace w) @
     map csv_path (filter (\<lambda>y. files w (csv_path y) \<noteq> None) (reached (files w) [1992..2026])) \<and>
   reached (files w) [1992..2026] =
     takeWhile (\<lambda>y. files w (csv_path y) \<noteq> Some Malformed) [1992..2026] @
     take 1 (dropWhile (\<lambda>y. files w (csv_path y) \<noteq> Some Malformed) [1992..2026]) \<and>
   ((\<forall>y\<in>{1992..2026}. files w (csv_path y) \<noteq> Some Malformed) \<longrightarrow>
      reached (files w) [1992..2026] = [1992..2026])"
proof -
  have a: "years = [1992..2026]" by (rule years_upto)
  have b: "\<forall>y. csv_path y = ''./us_car_models_data_master/'' @ str y @ ''.csv''"
    using csv_path_shape by (rule allI)
  have c: "probed (trace (snd (main w))) =
     probed (trace w) @ map csv_path (reached (files w) [1992..2026])"
    using main_probed [of w] by (simp only: years_upto)
  have d: "reads (trace (snd (main w))) =
     reads (trace w) @
     map csv_path (filter (\<lambda>y. files w (csv_path y) \<noteq> None) (reached (files w) [1992..2026]))"
    using main_reads [of w] by (simp only: years_upto)
  have e: "reached (files w) [1992..2026] =
     takeWhile (\<lambda>y. files w (csv_path y) \<noteq> Some Malformed) [1992..2026] @
     take 1 (dropWhile (\<lambda>y. files w (csv_path y) \<noteq> Some Malformed) [1992..2026])"
    by (rule reached_def)
  have f: "(\<forall>y\<in>{1992..2026}. files w (csv_path y) \<noteq> Some Malformed) \<longrightarrow>
      reached (files w) [1992..2026] = [1992..2026]"
  proof
    assume "\<forall>y\<in>{1992..2026}. files w (csv_path y) \<noteq> Some Malformed"
    then have "\<forall>y\<in>set [1992..2026]. files w (csv_path y) \<noteq> Some Malformed"
      by (simp only: set_upto)
    then show "reached (files w) [1992..2026] = [1992..2026]"
      by (rule reached_all)
  qed
  from a b c d e f show ?thesis by (intro conjI)
qed

theorem scan_range_witness:
  "probed (trace (snd (main wA))) =
     [''./us_car_models_data_master/1992.csv'', ''./us_car_models_data_master/1993.csv'',
      ''./us_car_models_data_master/1994.csv'', ''./us_car_models_data_master/1995.csv'',
      ''./us_car_models_data_master/1996.csv'', ''./us_car_models_data_master/1997.csv'',
      ''./us_car_models_data_master/1998.csv'', ''./us_car_models_data_master/1999.csv'',
      ''./us_car_models_data_master/2000.csv'', ''./us_car_models_data_master/2001.csv'',
      ''./us_car_models_data_master/2002.csv'', ''./us_car_models_data_master/2003.csv'',
      ''./us_car_models_data_master/2004.csv'', ''./us_car_models_data_master/2005.csv'',
      ''./us_car_models_data_master/2006.csv'', ''./us_car_models_data_master/2007.csv'',
      ''./us_car_models_data_master/2008.csv'', ''./us_car_models_data_master/2009.csv'',
      ''./us_car_models_data_master/2010.csv'', ''./us_car_models_data_master/2011.csv'',
      ''./us_car_models_data_master/2012.csv'', ''./us_car_models_data_master/2013.csv'',
      ''./us_car_models_data_master/2014.csv'', ''./us_car_models_data_master/2015.csv'',
      ''./us_car_models_data_master/2016.csv'', ''./us_car_models_data_master/2017.csv'',
      ''./us_car_models_data_master/2018.csv'', ''./us_car_models_data_master/2019.csv'',
      ''./us_car_models_data_master/2020.csv'', ''./us_car_models_data_master/2021.csv'',
      ''./us_car_models_data_master/2022.csv'', ''./us_car_models_data_master/2023.csv'',
      ''./us_car_models_data_master/2024.csv'', ''./us_car_models_data_master/2025.csv'',
      ''./us_car_models_data_master/2026.csv''] \<and>
   reads (trace (snd (main wA))) = [''./us_car_models_data_master/2020.csv'']"
proof -
  have ok: "\<forall>y\<in>{1992..2026}. files wA (csv_path y) \<noteq> Some Malformed"
    using ok_wA by (simp only: set_years)
  have r: "reached (files wA) [1992..2026] = years"
    using scan_range [of wA, THEN conjunct2, THEN conjunct2, THEN conjunct2, THEN conjunct2,
      THEN conjunct2, THEN mp, OF ok]
    by (simp only: years_upto)
  have p: "probed (trace (snd (main wA))) =
      probed (trace wA) @ map csv_path (reached (files wA) [1992..2026])"
    using scan_range [of wA] by (elim conjE)
  have q: "reads (trace (snd (main wA))) =
      reads (trace wA) @
      map csv_path (filter (\<lambda>y. files wA (csv_path y) \<noteq> None) (reached (files wA) [1992..2026]))"
    using scan_range [of wA] by (elim conjE)
  have f: "filter (\<lambda>y. files wA (csv_path y) \<noteq> None) years = [2020]"
    by (simp add: years_list csv_path_eval wA_def)
  have e: "probed (trace wA) = []" "reads (trace wA) = []"
    by (simp_all add: wA_def probed_def reads_def)
  show ?thesis
    unfolding p q r f e by (simp add: years_list csv_path_eval)
qed

theorem scan_range_counterexample:
  "fst (main wM) = Inl ParserError \<and>
   probed (trace (snd (main wM))) =
     [''./us_car_models_data_master/1992.csv'',
      ''./us_car_models_data_master/1993.csv'',
      ''./us_car_models_data_master/1994.csv'',
      ''./us_car_models_data_master/1995.csv'',
      ''./us_car_models_data_master/1996.csv'',
      ''./us_car_models_data_master/1997.csv'',
      ''./us_car_models_data_master/1998.csv'',
      ''./us_car_models_data_master/1999.csv'',
      ''./us_car_models_data_master/2000.csv'',
      ''./us_car_models_data_master/2001.csv'',
      ''./us_car_models_data_master/2002.csv'',
      ''./us_car_models_data_master/2003.csv'',
      ''./us_car_models_data_master/2004.csv'',
      ''./us_car_models_data_master/2005.csv'',
      ''./us_car_models_data_master/2006.csv'',
      ''./us_car_models_data_master/2007.csv'',
      ''./us_car_models_data_master/2008.csv'',
      ''./us_car_models_data_master/2009.csv'',
      ''./us_car_models_data_master/2010.csv'',
      ''./us_car_models_data_master/2011.csv'',
      ''./us_car_models_data_master/2012.csv'',
      ''./us_car_models_data_master/2013.csv'',
      ''./us_car_models_data_master/2014.csv'',
      ''./us_car_models_data_master/2015.csv'',
      ''./us_car_models_data_master/2016.csv'',
      ''./us_car_models_data_master/2017.csv'',
      ''./us_car_models_data_master/2018.csv'',
      ''./us_car_models_data_master/2019.csv'',
      ''./us_car_models_data_master/2020.csv''] \<and>
   files wM ''./us_car_models_data_master/2021.csv'' = None \<and>
   ''./us_car_models_data_master/2021.csv'' \<notin> set (probed (trace (snd (main wM)))) \<and>
   probed (trace (snd (main wM))) \<noteq> map csv_path [1992..2026]"
proof -
  have e: "probed (trace wM) = []"
    by (simp add: wM_def probed_def)
  have p: "probed (trace (snd (main wM))) =
     [''./us_car_models_data_master/1992.csv'',
      ''./us_car_models_data_master/1993.csv'',
      ''./us_car_models_data_master/1994.csv'',
      ''./us_car_models_data_master/1995.csv'',
      ''./us_car_models_data_master/1996.csv'',
      ''./us_car_models_data_master/1997.csv'',
      ''./us_car_models_data_master/1998.csv'',
      ''./us_car_models_data_master/1999.csv'',
      ''./us_car_models_data_master/2000.csv'',
      ''./us_car_models_data_master/2001.csv'',
      ''./us_car_models_data_master/2002.csv'',
      ''./us_car_models_data_master/2003.csv'',
      ''./us_car_models_data_master/2004.csv'',
      ''./us_car_models_data_master/2005.csv'',
      ''./us_car_models_data_master/2006.csv'',
      ''./us_car_models_data_master/2007.csv'',
      ''./us_car_models_data_master/2008.csv'',
      ''./us_car_models_data_master/2009.csv'',
      ''./us_car_models_data_master/2010.csv'',
      ''./us_car_models_data_master/2011.csv'',
      ''./us_car_models_data_master/2012.csv'',
      ''./us_car_models_data_master/2013.csv'',
      ''./us_car_models_data_master/2014.csv'',
      ''./us_car_models_data_master/2015.csv'',
      ''./us_car_models_data_master/2016.csv'',
      ''./us_car_models_data_master/2017.csv'',
      ''./us_car_models_data_master/2018.csv'',
      ''./us_car_models_data_master/2019.csv'',
      ''./us_car_models_data_master/2020.csv'']"
    unfolding main_probed reached_wM e by (simp add: csv_path_eval)
  have n: "files wM ''./us_car_models_data_master/2021.csv'' = None"
    by (simp add: wM_def)
  have m: "''./us_car_models_data_master/2021.csv'' \<notin> set (probed (trace (snd (main wM))))"
    unfolding p by simp
  have "length (probed (trace (snd (main wM)))) = 29"
    unfolding p by simp
  moreover have "length (map csv_path [1992..2026]) = 35"
    using length_years by (simp only: years_upto length_map)
  ultimately have d: "probed (trace (snd (main wM))) \<noteq> map csv_path [1992..2026]"
    by auto
  from fst_main_wM p n m d show ?thesis by (intro conjI)
qed



text \<open>
  Claim C5.  A second run on the world the first run left finds the same directory,
  ends with the same outcome and leaves every database as the first run left it; in
  particular the table \<^verbatim>\<open>all_cars\<close> is the same after both.  The write replaces: after
  a successful run the table is the same from whatever store the run started, as long as
  the directory is the same.
\<close>

theorem run_twice:
  assumes "main w = (r1, w1)" and "main w1 = (r2, w2)"
  shows "files w1 = files w \<and> r2 = r1 \<and> dbs w2 = dbs w1 \<and>
     all_cars_table w2 = all_cars_table w1 \<and>
     (\<forall>w0. files w0 = files w \<and> r1 = Inr () \<longrightarrow>
        fst (main w0) = Inr () \<and> all_cars_table (snd (main w0)) = all_cars_table w1)"
proof -
  have w1: "w1 = snd (main w)" and r1: "r1 = fst (main w)"
    using assms(1) by simp_all
  have w2: "w2 = snd (main w1)" and r2: "r2 = fst (main w1)"
    using assms(2) by simp_all
  have f: "files w1 = files w"
    unfolding w1 by (rule main_files)
  have r: "r2 = r1"
    unfolding r1 r2 using f by (rule main_outcome_files)
  have d: "dbs w2 = dbs w1"
    unfolding w2 w1 by (rule main_dbs_again)
  have t: "all_cars_table w2 = all_cars_table w1"
    using d by (simp add: all_cars_table_def)
  have "\<forall>w0. files w0 = files w \<and> r1 = Inr () \<longrightarrow>
        fst (main w0) = Inr () \<and> all_cars_table (snd (main w0)) = all_cars_table w1"
  proof (intro allI impI, elim conjE)
    fix w0 :: world
    assume a: "files w0 = files w" and "r1 = Inr ()"
    then have b: "fst (main w) = Inr ()" by (simp add: r1)
    show "fst (main w0) = Inr () \<and> all_cars_table (snd (main w0)) = all_cars_table w1"
      unfolding w1 using main_outcome_files [OF a] main_table_files [OF a b] b by simp
  qed
  with f r d t show ?thesis by (intro conjI)
qed

theorem run_twice_witness:
  "all_cars_table wA' = Some old_table \<and>
   fst (main wA') = Inr () \<and>
   fst (main (snd (main wA'))) = Inr () \<and>
   all_cars_table (snd (main (snd (main wA')))) = all_cars_table (snd (main wA')) \<and>
   map_option (\<lambda>t. length (rows t)) (all_cars_table (snd (main (snd (main wA'))))) = Some 1"
proof -
  have 1: "main wA' = (fst (main wA'), snd (main wA'))" by simp
  have 2: "main (snd (main wA')) = (fst (main (snd (main wA'))), snd (main (snd (main wA'))))"
    by simp
  note r = run_twice [OF 1 2]
  have t: "all_cars_table (snd (main wA')) = Some (all_cars_frame (files wA'))"
    using main_wA' by (rule main_success_table)
  have n: "length (rows (all_cars_frame (files wA'))) = 1"
    by (simp add: rows_frame_eval collected_wA' tagged_def setitem_def dfA_def)
  have o: "all_cars_table wA' = Some old_table"
    by (simp add: all_cars_table_def wA'_def output_db_def)
  have f1: "fst (main wA') = Inr ()" by (rule fst_main_wA')
  have f2: "fst (main (snd (main wA'))) = fst (main wA')"
    using r by (elim conjE)
  have t2: "all_cars_table (snd (main (snd (main wA')))) = all_cars_table (snd (main wA'))"
    using r by (elim conjE)
  show ?thesis
    unfolding t2 f2 f1 t using o n by simp
qed

text \<open>
  Claim C6, as amended.  The notice for a year is \<^verbatim>\<open>File <year>.csv not found, skipping.\<close>,
  and the notices of the 35 years differ from one another.  At a year whose file is
  absent the loop tests the path, prints that notice once and goes on with the remaining
  years and the frames collected so far.  Over a whole run the console shows, after what
  it held, the notices of the absent years among the years reached, in order, followed
  by the completion line if the run succeeds.  The years reached are the whole range if
  no file is malformed, and end at the first malformed file otherwise.  When some file
  exists and none is malformed, absent files do not make the run fail: it ends neither
  with the parser's error nor with the error of line 27, and succeeds exactly when
  \<^verbatim>\<open>to_sql\<close> accepts the frame.
\<close>

theorem skip_notices:
  "skip_notice y = ''File '' @ str y @ ''.csv not found, skipping.'' \<and>
   distinct (map skip_notice [1992..2026]) \<and>
   (files w (csv_path y) = None \<longrightarrow>
      scan w (y # ys) acc = scan (print (log (Exists (csv_path y)) w) (skip_notice y)) ys acc) \<and>
   console (trace (snd (main w))) =
     console (trace w) @
     map skip_notice
       (filter (\<lambda>y. files w (csv_path y) = None) (reached (files w) [1992..2026])) @
     (if fst (main w) = Inr ()
      then [''All cars data merged and stored in ./cars.db as 'all_cars'.''] else []) \<and>
   reached (files w) [1992..2026] =
     takeWhile (\<lambda>y. files w (csv_path y) \<noteq> Some Malformed) [1992..2026] @
     take 1 (dropWhile (\<lambda>y. files w (csv_path y) \<noteq> Some Malformed) [1992..2026]) \<and>
   ((\<forall>y'\<in>{1992..2026}. files w (csv_path y') \<noteq> Some Malformed) \<longrightarrow>
      reached (files w) [1992..2026] = [1992..2026]) \<and>
   ((\<exists>y'. y' \<in> {1992..2026} \<and> files w (csv_path y') \<noteq> None) \<and>
    (\<forall>y'\<in>{1992..2026}. files w (csv_path y') \<noteq> Some Malformed) \<longrightarrow>
      fst (main w) \<noteq> Inl ParserError \<and>
      fst (main w) \<noteq> Inl (FileNotFoundError ''No CSV files found for the specified range.'') \<and>
      (fst (main w) = Inr ()) = (sql_error (all_cars_frame (files w)) = None))"
proof -
  have a: "skip_notice y = ''File '' @ str y @ ''.csv not found, skipping.''"
    by (simp add: skip_notice_def)
  have b: "distinct (map skip_notice [1992..2026])"
    using distinct_notices by (simp only: years_upto)
  have c: "files w (csv_path y) = None \<longrightarrow>
      scan w (y # ys) acc = scan (print (log (Exists (csv_path y)) w) (skip_notice y)) ys acc"
    using scan_absent by blast
  have d: "console (trace (snd (main w))) =
     console (trace w) @
     map skip_notice
       (filter (\<lambda>y. files w (csv_path y) = None) (reached (files w) [1992..2026])) @
     (if fst (main w) = Inr ()
      then [''All cars data merged and stored in ./cars.db as 'all_cars'.''] else [])"
    using main_console [of w] by (simp only: years_upto)
  have e: "reached (files w) [1992..2026] =
     takeWhile (\<lambda>y. files w (csv_path y) \<noteq> Some Malformed) [1992..2026] @
     take 1 (dropWhile (\<lambda>y. files w (csv_path y) \<noteq> Some Malformed) [1992..2026])"
    by (rule reached_def)
  have f: "(\<forall>y'\<in>{1992..2026}. files w (csv_path y') \<noteq> Some Malformed) \<longrightarrow>
      reached (files w) [1992..2026] = [1992..2026]"
  proof
    assume "\<forall>y'\<in>{1992..2026}. files w (csv_path y') \<noteq> Some Malformed"
    then have "\<forall>y\<in>set [1992..2026]. files w (csv_path y) \<noteq> Some Malformed"
      by (simp only: set_upto)
    then show "reached (files w) [1992..2026] = [1992..2026]"
      by (rule reached_all)
  qed
  have g: "(\<exists>y'. y' \<in> {1992..2026} \<and> files w (csv_path y') \<noteq> None) \<and>
    (\<forall>y'\<in>{1992..2026}. files w (csv_path y') \<noteq> Some Malformed) \<longrightarrow>
      fst (main w) \<noteq> Inl ParserError \<and>
      fst (main w) \<noteq> Inl (FileNotFoundError ''No CSV files found for the specified range.'') \<and>
      (fst (main w) = Inr ()) = (sql_error (all_cars_frame (files w)) = None)"
  proof (intro impI, elim conjE exE)
    fix y'
    assume "y' \<in> {1992..2026}" and p: "files w (csv_path y') \<noteq> None"
      and "\<forall>y'\<in>{1992..2026}. files w (csv_path y') \<noteq> Some Malformed"
    then have ok: "\<forall>y\<in>set years. files w (csv_path y) \<noteq> Some Malformed"
      and y': "y' \<in> set years"
      by (simp_all only: set_years)
    have fnd: "found (files w) years \<noteq> []"
      using y' p ok by (rule some_present_found)
    have s: "(fst (main w) = Inr ()) = (sql_error (all_cars_frame (files w)) = None)"
      using ok fnd by (simp add: main_success_iff)
    have "fst (main w) \<noteq> Inl ParserError \<and>
      fst (main w) \<noteq> Inl (FileNotFoundError ''No CSV files found for the specified range.'')"
    proof (cases "all_cars_frame (files w)" rule: sql_error_cases)
      case 1
      with s show ?thesis by simp
    next
      case (2 e)
      from main_refused [OF ok fnd 2(1)] 2(2) show ?thesis by auto
    qed
    with s show "fst (main w) \<noteq> Inl ParserError \<and>
      fst (main w) \<noteq> Inl (FileNotFoundError ''No CSV files found for the specified range.'') \<and>
      (fst (main w) = Inr ()) = (sql_error (all_cars_frame (files w)) = None)"
      by (intro conjI) simp_all
  qed
  from a b c d e f g show ?thesis by (intro conjI)
qed

theorem skip_notices_witness:
  "console (trace (snd (main wB))) =
     [''File 1993.csv not found, skipping.'',
      ''File 1994.csv not found, skipping.'',
      ''File 1995.csv not found, skipping.'',
      ''File 1996.csv not found, skipping.'',
      ''File 1997.csv not found, skipping.'',
      ''File 1998.csv not found, skipping.'',
      ''File 1999.csv not found, skipping.'',
      ''File 2000.csv not found, skipping.'',
      ''File 2001.csv not found, skipping.'',
      ''File 2002.csv not found, skipping.'',
      ''File 2003.csv not found, skipping.'',
      ''File 2004.csv not found, skipping.'',
      ''File 2005.csv not found, skipping.'',
      ''File 2006.csv not found, skipping.'',
      ''File 2007.csv not found, skipping.'',
      ''File 2008.csv not found, skipping.'',
      ''File 2009.csv not found, skipping.'',
      ''File 2010.csv not found, skipping.'',
      ''File 2011.csv not found, skipping.'',
      ''File 2012.csv not found, skipping.'',
      ''File 2013.csv not found, skipping.'',
      ''File 2014.csv not found, skipping.'',
      ''File 2015.csv not found, skipping.'',
      ''File 2016.csv not found, skipping.'',
      ''File 2017.csv not found, skipping.'',
      ''File 2018.csv not found, skipping.'',
      ''File 2019.csv not found, skipping.'',
      ''File 2020.csv not found, skipping.'',
      ''File 2021.csv not found, skipping.'',
      ''File 2022.csv not found, skipping.'',
      ''File 2023.csv not found, skipping.'',
      ''File 2024.csv not found, skipping.'',
      ''File 2025.csv not found, skipping.'',
      ''All cars data merged and stored in ./cars.db as 'all_cars'.'']"
proof -
  have ok: "\<forall>y\<in>{1992..2026}. files wB (csv_path y) \<noteq> Some Malformed"
    using ok_wB by (simp only: set_years)
  note s = skip_notices [of 1992 wB "[]" "[]"]
  have r: "reached (files wB) [1992..2026] = years"
    using s [THEN conjunct2, THEN conjunct2, THEN conjunct2, THEN conjunct2, THEN conjunct2,
      THEN conjunct1, THEN mp, OF ok]
    by (simp only: years_upto)
  have c: "console (trace (snd (main wB))) =
     console (trace wB) @
     map skip_notice
       (filter (\<lambda>y. files wB (csv_path y) = None) (reached (files wB) [1992..2026])) @
     (if fst (main wB) = Inr ()
      then [''All cars data merged and stored in ./cars.db as 'all_cars'.''] else [])"
    using s by (elim conjE)
  have f: "filter (\<lambda>y. files wB (csv_path y) = None) years =
      [1993, 1994, 1995, 1996, 1997, 1998, 1999, 2000, 2001, 2002, 2003, 2004, 2005, 2006, 2007,
       2008, 2009, 2010, 2011, 2012, 2013, 2014, 2015, 2016, 2017, 2018, 2019, 2020, 2021, 2022,
       2023, 2024, 2025]"
    by (simp add: years_list csv_path_eval wB_def)
  have e: "console (trace wB) = []"
    by (simp add: wB_def console_def)
  show ?thesis
    unfolding c r f e fst_main_wB by (simp add: skip_notice_eval)
qed

theorem skip_notices_counterexample:
  "fst (main wM) = Inl ParserError \<and>
   files wM ''./us_car_models_data_master/2021.csv'' = None \<and>
   console (trace (snd (main wM))) =
     [''File 1992.csv not found, skipping.'',
      ''File 1993.csv not found, skipping.'',
      ''File 1994.csv not found, skipping.'',
      ''File 1995.csv not found, skipping.'',
      ''File 1996.csv not found, skipping.'',
      ''File 1997.csv not found, skipping.'',
      ''File 1998.csv not found, skipping.'',
      ''File 1999.csv not found, skipping.'',
      ''File 2000.csv not found, skipping.'',
      ''File 2001.csv not found, skipping.'',
      ''File 2002.csv not found, skipping.'',
      ''File 2003.csv not found, skipping.'',
      ''File 2004.csv not found, skipping.'',
      ''File 2005.csv not found, skipping.'',
      ''File 2006.csv not found, skipping.'',
      ''File 2007.csv not found, skipping.'',
      ''File 2008.csv not found, skipping.'',
      ''File 2009.csv not found, skipping.'',
      ''File 2010.csv not found, skipping.'',
      ''File 2011.csv not found, skipping.'',
      ''File 2012.csv not found, skipping.'',
      ''File 2013.csv not found, skipping.'',
      ''File 2014.csv not found, skipping.'',
      ''File 2015.csv not found, skipping.'',
      ''File 2016.csv not found, skipping.'',
      ''File 2017.csv not found, skipping.'',
      ''File 2018.csv not found, skipping.''] \<and>
   ''File 2021.csv not found, skipping.'' \<notin> set (console (trace (snd (main wM))))"
proof -
  have e: "console (trace wM) = []"
    by (simp add: wM_def console_def)
  have f: "filter (\<lambda>y. files wM (csv_path y) = None)
       [1992, 1993, 1994, 1995, 1996, 1997, 1998, 1999, 2000, 2001, 2002, 2003, 2004, 2005,
        2006, 2007, 2008, 2009, 2010, 2011, 2012, 2013, 2014, 2015, 2016, 2017, 2018, 2019, 2020] =
      [1992, 1993, 1994, 1995, 1996, 1997, 1998, 1999, 2000, 2001, 2002, 2003, 2004, 2005,
        2006, 2007, 2008, 2009, 2010, 2011, 2012, 2013, 2014, 2015, 2016, 2017, 2018]"
    by (simp add: csv_path_eval wM_def)
  have c: "console (trace (snd (main wM))) =
     [''File 1992.csv not found, skipping.'',
      ''File 1993.csv not found, skipping.'',
      ''File 1994.csv not found, skipping.'',
      ''File 1995.csv not found, skipping.'',
      ''File 1996.csv not found, skipping.'',
      ''File 1997.csv not found, skipping.'',
      ''File 1998.csv not found, skipping.'',
      ''File 1999.csv not found, skipping.'',
      ''File 2000.csv not found, skipping.'',
      ''File 2001.csv not found, skipping.'',
      ''File 2002.csv not found, skipping.'',
      ''File 2003.csv not found, skipping.'',
      ''File 2004.csv not found, skipping.'',
      ''File 2005.csv not found, skipping.'',
      ''File 2006.csv not found, skipping.'',
      ''File 2007.csv not found, skipping.'',
      ''File 2008.csv not found, skipping.'',
      ''File 2009.csv not found, skipping.'',
      ''File 2010.csv not found, skipping.'',
      ''File 2011.csv not found, skipping.'',
      ''File 2012.csv not found, skipping.'',
      ''File 2013.csv not found, skipping.'',
      ''File 2014.csv not found, skipping.'',
      ''File 2015.csv not found, skipping.'',
      ''File 2016.csv not found, skipping.'',
      ''File 2017.csv not found, skipping.'',
      ''File 2018.csv not found, skipping.'']"
    unfolding main_console reached_wM e f fst_main_wM by (simp add: skip_notice_eval)
  have n: "files wM ''./us_car_models_data_master/2021.csv'' = None"
    by (simp add: wM_def)
  have m: "''File 2021.csv not found, skipping.'' \<notin> set (console (trace (snd (main wM))))"
    unfolding c by simp
  from fst_main_wM n c m show ?thesis by (intro conjI)
qed

text \<open>
  Claim C7.  After a successful run the column labels of \<^verbatim>\<open>all_cars\<close> are, each once,
  the labels of the files that were read together with \<^verbatim>\<open>year\<close>.  The columns named
  in \<^verbatim>\<open>CREATE TABLE IF NOT EXISTS\<close> do not bear on this: whatever columns that statement
  declares, the replacing write that follows has the outcome and leaves the databases it
  would without the statement, and when it succeeds the table is the frame written.
\<close>

theorem persisted_columns:
  assumes "main w = (Inr u, w')"
  shows "(\<exists>t. all_cars_table w' = Some t \<and> distinct (columns t) \<and>
        set (columns t) = (\<Union>y\<in>{1992..2026}. header (files w) y) \<union> {''year''}) \<and>
     (case to_sql_replace (create_table_if_not_exists w1 conn ''all_cars'' cols) df
             ''all_cars'' conn of
        (r, w3) \<Rightarrow> (r, dbs w3)) =
     (case to_sql_replace w1 df ''all_cars'' conn of (r, w3) \<Rightarrow> (r, dbs w3)) \<and>
     (fst (to_sql_replace w1 df ''all_cars'' conn) = Inr () \<longrightarrow>
        the_db (snd (to_sql_replace w1 df ''all_cars'' conn)) (db_path conn) ''all_cars'' =
          Some df)"
proof -
  let ?t = "all_cars_frame (files w)"
  have t: "all_cars_table w' = Some ?t"
    using assms by (rule main_success_table)
  have d: "distinct (columns ?t)"
    by (rule distinct_columns_frame)
  have "set (columns ?t) = (\<Union>y\<in>set years. header (files w) y) \<union> {''year''}"
    using main_success(2) [OF assms] by (rule columns_frame)
  then have c: "set (columns ?t) = (\<Union>y\<in>{1992..2026}. header (files w) y) \<union> {''year''}"
    by (simp only: set_years)
  from t d c have 1: "\<exists>t. all_cars_table w' = Some t \<and> distinct (columns t) \<and>
        set (columns t) = (\<Union>y\<in>{1992..2026}. header (files w) y) \<union> {''year''}"
    by (intro exI [of _ ?t] conjI)
  have 2: "(case to_sql_replace (create_table_if_not_exists w1 conn ''all_cars'' cols) df
             ''all_cars'' conn of
        (r, w3) \<Rightarrow> (r, dbs w3)) =
     (case to_sql_replace w1 df ''all_cars'' conn of (r, w3) \<Rightarrow> (r, dbs w3))"
    by (rule replace_after_create)
  have 3: "fst (to_sql_replace w1 df ''all_cars'' conn) = Inr () \<longrightarrow>
        the_db (snd (to_sql_replace w1 df ''all_cars'' conn)) (db_path conn) ''all_cars'' =
          Some df"
    using replace_success by blast
  from 1 2 3 show ?thesis by (intro conjI)
qed

theorem persisted_columns_witness:
  "(\<exists>t. all_cars_table (snd (main wX)) = Some t \<and>
       set (columns t) = {''make'', ''trim'', ''year''} \<and>
       set (columns t) \<noteq> set [''year'', ''make'', ''model'', ''body_styles'']) \<and>
   fst (to_sql_replace wC dfX ''all_cars'' \<lparr>db_path = ''./cars.db''\<rparr>) = Inr () \<and>
   the_db (snd (to_sql_replace wC dfX ''all_cars'' \<lparr>db_path = ''./cars.db''\<rparr>)) ''./cars.db''
     ''all_cars'' = Some dfX"
proof -
  have s: "sql_error dfX = None"
    by (simp add: sql_error_def labels_clash_def overflows_def dfX_def lower_label_eval
          cell_at_def)
  have w1: "fst (to_sql_replace wC dfX ''all_cars'' \<lparr>db_path = ''./cars.db''\<rparr>) = Inr ()"
    by (simp add: to_sql_replace_eq s)
  have w2: "the_db (snd (to_sql_replace wC dfX ''all_cars'' \<lparr>db_path = ''./cars.db''\<rparr>))
      ''./cars.db'' ''all_cars'' = Some dfX"
    using persisted_columns [OF main_wX, THEN conjunct2, THEN conjunct2, THEN mp, OF w1]
    by simp
  obtain t where t: "all_cars_table (snd (main wX)) = Some t"
      "set (columns t) = (\<Union>y\<in>{1992..2026}. header (files wX) y) \<union> {''year''}"
    using persisted_columns [OF main_wX, THEN conjunct1] by (elim exE conjE)
  have "(\<Union>y\<in>set years. header (files wX) y) = {''make'', ''trim''}"
    by (simp add: years_list header_def csv_path_eval wX_def dfX_def)
  then have "(\<Union>y\<in>{1992..2026}. header (files wX) y) = {''make'', ''trim''}"
    by (simp only: set_years)
  with t(2) have c: "set (columns t) = {''make'', ''trim'', ''year''}" by auto
  have "''model'' \<notin> set (columns t)" unfolding c by simp
  then have "set (columns t) \<noteq> set [''year'', ''make'', ''model'', ''body_styles'']"
    by auto
  with t(1) c have "\<exists>t. all_cars_table (snd (main wX)) = Some t \<and>
       set (columns t) = {''make'', ''trim'', ''year''} \<and>
       set (columns t) \<noteq> set [''year'', ''make'', ''model'', ''body_styles'']"
    by (intro exI [of _ t] conjI)
  with w1 w2 show ?thesis by (intro conjI)
qed

text \<open>
  Claim C8.  If the file of some year from 1992 to 2026 is malformed, the run ends with
  the parser's error, the database files are what they were, and no call to the store
  was made.  The reason holds in every run, from any world \<open>w0\<close>: among the calls of a
  run, none from the first store call onwards reads a CSV file, so all parsing is over
  before the store is opened.
\<close>

theorem malformed_aborts:
  assumes "y \<in> {1992..2026}" and "files w (csv_path y) = Some Malformed"
  shows "fst (main w) = Inl ParserError \<and> dbs (snd (main w)) = dbs w \<and>
     filter store_event (trace (snd (main w))) = filter store_event (trace w) \<and>
     (\<exists>evs. trace (snd (main w0)) = trace w0 @ evs \<and>
        reads (dropWhile (\<lambda>e. \<not> store_event e) evs) = [])"
proof -
  have "y \<in> set years" using assms(1) by (simp only: set_years)
  from main_malformed [OF this assms(2)] obtain zs where
    m: "main w = (Inl ParserError, w\<lparr>trace := trace w @ scan_events (files w) zs\<rparr>)"
    by (elim exE)
  have 1: "fst (main w) = Inl ParserError" and 2: "dbs (snd (main w)) = dbs w"
    and 3: "filter store_event (trace (snd (main w))) = filter store_event (trace w)"
    unfolding m by (simp_all add: store_free_scan_events)
  from 1 2 3 main_order [of w0] show ?thesis by (intro conjI)
qed

theorem malformed_aborts_witness:
  "fst (main wM) = Inl ParserError \<and>
   all_cars_table (snd (main wM)) = Some old_table \<and>
   filter store_event (trace (snd (main wM))) = []"
proof -
  have y: "(2020::int) \<in> {1992..2026}" by simp
  have m: "files wM (csv_path 2020) = Some Malformed"
    by (simp add: csv_path_eval wM_def)
  have 1: "fst (main wM) = Inl ParserError" and 2: "dbs (snd (main wM)) = dbs wM"
    and 3: "filter store_event (trace (snd (main wM))) = filter store_event (trace wM)"
    using malformed_aborts [OF y m, of wM] by simp_all
  have "all_cars_table (snd (main wM)) = Some old_table"
    unfolding all_cars_table_def 2 by (simp add: wM_def output_db_def)
  moreover have "filter store_event (trace wM) = []"
    by (simp add: wM_def)
  ultimately show ?thesis using 1 3 by simp
qed

text \<open>
  Claim C9, as amended.  Let the file of a year from 1992 to 2026 parse into a frame
  without rows.  Then the run never ends with the error of line 27: the file counts as
  found, also when it is the only one.  The run succeeds exactly when no file of the
  range is malformed and \<^verbatim>\<open>to_sql\<close> accepts the frame.  When it succeeds the table has
  the columns of that file among its own, holds no row from that file, and its rows are
  those of the other years' files.
\<close>

theorem header_only_file:
  assumes "y \<in> {1992..2026}" and "files w (csv_path y) = Some (Csv df)" and "rows df = []"
  shows "fst (main w) \<noteq> Inl (FileNotFoundError ''No CSV files found for the specified range.'') \<and>
     (fst (main w) = Inr ()) =
       ((\<forall>y'\<in>{1992..2026}. files w (csv_path y') \<noteq> Some Malformed) \<and>
        sql_error (all_cars_frame (files w)) = None) \<and>
     (fst (main w) = Inr () \<longrightarrow>
        (\<exists>t. all_cars_table (snd (main w)) = Some t \<and>
           set (columns df) \<subseteq> set (columns t) \<and>
           block (files w) (columns t) y = [] \<and>
           rows t = concat (map (block (files w) (columns t))
                      (filter (\<lambda>y'. y' \<noteq> y) [1992..2026]))))"
proof -
  have y: "y \<in> set years" using assms(1) by (simp only: set_years)
  have fnd: "found (files w) years \<noteq> []"
    using y assms(2) by (rule parsed_found)
  have 1: "fst (main w) \<noteq> Inl (FileNotFoundError ''No CSV files found for the specified range.'')"
  proof (cases w rule: main_cases)
    case ok
    then show ?thesis by simp
  next
    case (refused e)
    then show ?thesis by auto
  next
    case nodata
    with fnd show ?thesis by simp
  next
    case (bad xs y ys)
    then show ?thesis by simp
  qed
  have 2: "(fst (main w) = Inr ()) =
       ((\<forall>y'\<in>{1992..2026}. files w (csv_path y') \<noteq> Some Malformed) \<and>
        sql_error (all_cars_frame (files w)) = None)"
    using fnd by (simp add: main_success_iff set_years)
  have 3: "fst (main w) = Inr () \<longrightarrow>
        (\<exists>t. all_cars_table (snd (main w)) = Some t \<and>
           set (columns df) \<subseteq> set (columns t) \<and>
           block (files w) (columns t) y = [] \<and>
           rows t = concat (map (block (files w) (columns t))
                      (filter (\<lambda>y'. y' \<noteq> y) [1992..2026])))"
  proof
    assume "fst (main w) = Inr ()"
    then have "main w = (Inr (), snd (main w))" by (rule outcome_pair)
    then have t: "all_cars_table (snd (main w)) = Some (all_cars_frame (files w))"
      by (rule main_success_table)
    let ?t = "all_cars_frame (files w)"
    have s: "set (columns df) \<subseteq> set (columns ?t)"
      using y assms(2) by (rule header_subset)
    have b: "block (files w) cols y = []" for cols
      using assms(2,3) by (simp add: block_parsed)
    have "rows ?t = concat (map (block (files w) (columns ?t)) years)"
      by (rule rows_frame)
    also have "\<dots> = concat (map (block (files w) (columns ?t)) (filter (\<lambda>y'. y' \<noteq> y) years))"
      using b by (rule concat_map_without [symmetric])
    finally have r: "rows ?t =
        concat (map (block (files w) (columns ?t)) (filter (\<lambda>y'. y' \<noteq> y) [1992..2026]))"
      by (simp only: years_upto)
    from t s b r show "\<exists>t. all_cars_table (snd (main w)) = Some t \<and>
           set (columns df) \<subseteq> set (columns t) \<and>
           block (files w) (columns t) y = [] \<and>
           rows t = concat (map (block (files w) (columns t))
                      (filter (\<lambda>y'. y' \<noteq> y) [1992..2026]))"
      by (intro exI [of _ ?t] conjI)
  qed
  from 1 2 3 show ?thesis by (intro conjI)
qed

theorem header_only_file_witness:
  "fst (main wE) = Inr () \<and>
   (\<exists>t. all_cars_table (snd (main wE)) = Some t \<and>
        set [''make'', ''model'', ''body_styles''] \<subseteq> set (columns t) \<and> rows t = [])"
proof -
  have y: "(2020::int) \<in> {1992..2026}" by simp
  have f: "files wE (csv_path 2020) = Some (Csv dfE)"
    by (simp add: csv_path_eval wE_def)
  have r: "rows dfE = []" by (simp add: dfE_def)
  note h = header_only_file [OF y f r]
  have ok: "\<forall>y'\<in>{1992..2026}. files wE (csv_path y') \<noteq> Some Malformed"
    using ok_wE by (simp only: set_years)
  have m: "fst (main wE) = Inr ()"
    using h [THEN conjunct2, THEN conjunct1] ok sql_wE by simp
  from h [THEN conjunct2, THEN conjunct2, THEN mp, OF m]
  obtain t where t: "all_cars_table (snd (main wE)) = Some t"
      "set (columns dfE) \<subseteq> set (columns t)"
      "rows t = concat (map (block (files wE) (columns t)) (filter (\<lambda>y'. y' \<noteq> 2020) [1992..2026]))"
    by (elim exE conjE)
  have "concat (map (block (files wE) (columns t)) (filter (\<lambda>y'. y' \<noteq> 2020) [1992..2026])) = []"
    by (simp add: block_def block_with_def csv_path_eval wE_def)
  with t(3) have e: "rows t = []" by simp
  have c: "set [''make'', ''model'', ''body_styles''] \<subseteq> set (columns t)"
    using t(2) by (simp add: dfE_def)
  from t(1) c e have "\<exists>t. all_cars_table (snd (main wE)) = Some t \<and>
        set [''make'', ''model'', ''body_styles''] \<subseteq> set (columns t) \<and> rows t = []"
    by (intro exI [of _ t] conjI)
  with m show ?thesis by (intro conjI)
qed

theorem header_only_file_counterexample:
  "files wH1 ''./us_car_models_data_master/2020.csv'' =
     Some (Csv \<lparr>columns = [''Year'', ''make''], rows = []\<rparr>) \<and>
   filter (\<lambda>y. files wH1 (csv_path y) \<noteq> None) [1992..2026] = [2020] \<and>
   fst (main wH1) = Inl OperationalError \<and>
   files wH2 ''./us_car_models_data_master/2019.csv'' =
     Some (Csv \<lparr>columns = [''make'', ''model'', ''body_styles''], rows = []\<rparr>) \<and>
   fst (main wH2) = Inl ParserError"
proof -
  have 1: "files wH1 ''./us_car_models_data_master/2020.csv'' =
     Some (Csv \<lparr>columns = [''Year'', ''make''], rows = []\<rparr>)"
    by (simp add: wH1_def dfH_def)
  have "filter (\<lambda>y. files wH1 (csv_path y) \<noteq> None) years = [2020]"
    by (simp add: years_list csv_path_eval wH1_def)
  then have 2: "filter (\<lambda>y. files wH1 (csv_path y) \<noteq> None) [1992..2026] = [2020]"
    by (simp only: years_upto)
  have 3: "fst (main wH1) = Inl OperationalError"
    by (subst main_wH1) simp
  have 4: "files wH2 ''./us_car_models_data_master/2019.csv'' =
     Some (Csv \<lparr>columns = [''make'', ''model'', ''body_styles''], rows = []\<rparr>)"
    by (simp add: wH2_def dfE_def)
  from 1 2 3 4 fst_main_wH2 show ?thesis by (intro conjI)
qed




end
